theory Spec2Isabelle
  imports Complex_Main
begin

section \<open>Data model of the Repeat node (src/src/Repeat.cpp)\<close>

text \<open>
  Times (\<^verbatim>\<open>ros::Time\<close>) and durations (\<^verbatim>\<open>ros::Duration\<close>) are integer counts of
  nanoseconds; the range checks of the ROS time library are outside this model.
  The message payloads (twist, pose, point cloud, trajectory error, transform) and the
  command corrector's internal state are type parameters: the node only stores, forwards
  and hands them to collaborators.
\<close>

type_synonym rosTime = int

datatype Status = PLAY | PAUSE | ERROR

record 'tw TwistStamped =
  twist_stamp :: rosTime
  twist :: 'tw

record 'p PoseStamped =
  pose_stamp :: rosTime
  pose :: 'p

record ('p, 'cl) AnchorPoint =
  name :: string
  getPosition :: 'p
  getCloud :: 'cl

record Joy =
  buttons :: "int list"

text \<open>
  A \<^verbatim>\<open>double\<close> as far as the node uses one: the value a distance function returns,
  the constant \<^verbatim>\<open>std::numeric_limits<double>::infinity()\<close>, and the comparison
  \<^verbatim>\<open>>=\<close>, which is exact and false as soon as one side is not a number.
\<close>

datatype double = Finite real | PlusInfinity | MinusInfinity | NaN

fun double_ge :: "double \<Rightarrow> double \<Rightarrow> bool" where
  "double_ge NaN _ = False"
| "double_ge _ NaN = False"
| "double_ge PlusInfinity _ = True"
| "double_ge _ MinusInfinity = True"
| "double_ge (Finite a) (Finite b) = (b \<le> a)"
| "double_ge (Finite a) PlusInfinity = False"
| "double_ge MinusInfinity _ = False"

fun double_le :: "double \<Rightarrow> double \<Rightarrow> bool" where
  "double_le NaN _ = False"
| "double_le _ NaN = False"
| "double_le MinusInfinity _ = True"
| "double_le _ PlusInfinity = True"
| "double_le (Finite a) (Finite b) = (a \<le> b)"
| "double_le (Finite a) MinusInfinity = False"
| "double_le PlusInfinity _ = False"

text \<open>
  Everything the node makes observable, in the order it happens: messages published on
  its topics, calls into the command corrector and the registration service, and the
  lines it logs.
\<close>

datatype ('tw, 'p, 'cl, 'e) event =
    PublishCommand 'tw
  | PublishReferencePose 'p
  | PublishAnchorPointSwitch rosTime string
  | PublishError 'e
  | CorrectCommandCall 'tw
  | UpdateErrorCall 'e
  | MatchCloudsCall 'cl 'cl
  | RosWarn string
  | RosInfo string
  | RosInfoPausedAt rosTime

text \<open>
  The collaborators whose code is not in Repeat.cpp: the distance between poses, the
  command corrector, the registration service (\<open>None\<close>: the call failed), the
  transformation of a reading into the anchor's frame (lines 129 to 136 as one function of
  the pose, the anchor's position and the reading), and the button indices of
  ControllerMappings.h.
\<close>

record ('tw, 'p, 'cl, 'c, 'e, 'tf) Externals =
  customDistance :: "'p \<Rightarrow> 'p \<Rightarrow> double"
  correctCommand :: "'c \<Rightarrow> 'tw \<Rightarrow> 'tw \<times> 'c"
  controllerUpdateError :: "'c \<Rightarrow> 'e \<Rightarrow> 'c"
  controlErrorOfTransformation :: "'tf \<Rightarrow> 'e"
  idleTwistCommand :: 'tw
  transformReading :: "'p \<Rightarrow> 'p \<Rightarrow> 'cl \<Rightarrow> 'cl"
  matchClouds :: "'cl \<Rightarrow> 'cl \<Rightarrow> 'tf option"
  RB :: nat
  X :: nat

text \<open>
  The object's fields. A cursor is the offset of the iterator from \<^verbatim>\<open>begin()\<close>;
  \<open>serviceCallLock\<close> is True while the mutex is held; \<open>events\<close> is the trace of
  events so far.
\<close>

record ('tw, 'p, 'cl, 'c, 'e) Repeat =
  commands :: "'tw TwistStamped list"
  positions :: "'p PoseStamped list"
  anchorPoints :: "('p, 'cl) AnchorPoint list"
  commandCursor :: nat
  positionCursor :: nat
  anchorPointCursor :: nat
  currentStatus :: Status
  baseSimTime :: rosTime
  timePlaybackStarted :: rosTime
  lookahead :: rosTime
  controller :: 'c
  serviceCallLock :: bool
  events :: "('tw, 'p, 'cl, 'e) event list"

text \<open>
  Dereferencing an iterator that points at no element (an empty sequence, or
  \<^verbatim>\<open>end()\<close>), forming an iterator before \<^verbatim>\<open>begin()\<close>, and indexing the button
  array out of range are undefined in C++; the model returns an error there.
\<close>

datatype error = InvalidIterator | ButtonOutOfRange

definition bindE :: "error + 'a \<Rightarrow> ('a \<Rightarrow> error + 'b) \<Rightarrow> error + 'b" where
  "bindE m f = (case m of Inl e \<Rightarrow> Inl e | Inr v \<Rightarrow> f v)"

definition deref :: "'a list \<Rightarrow> nat \<Rightarrow> error + 'a" where
  "deref xs i = (if i < length xs then Inr (xs ! i) else Inl InvalidIterator)"

section \<open>Trajectory store: commandOfTime and poseOfTime\<close>

text \<open>
  The loop of \<^verbatim>\<open>commandOfTime\<close> (lines 187 to 191). Its condition reads the stamp of
  the entry at the cursor first, then compares the cursor with \<^verbatim>\<open>commands.end() - 1\<close>,
  which exists once the cursor has been dereferenced; the comparison of random access
  iterators is the sign of their distance, an integer.
\<close>

function commandOfTime_loop ::
  "rosTime \<Rightarrow> ('tw, 'p, 'cl, 'c, 'e) Repeat \<Rightarrow> error + ('tw, 'p, 'cl, 'c, 'e) Repeat" where
  "commandOfTime_loop time s =
     (if length (commands s) \<le> commandCursor s then Inl InvalidIterator
      else if twist_stamp (commands s ! commandCursor s) < time + lookahead s \<and>
              int (commandCursor s) < int (length (commands s)) - 1
      then commandOfTime_loop time (s\<lparr>commandCursor := Suc (commandCursor s)\<rparr>)
      else Inr s)"
  by pat_completeness auto
termination
  by (relation "measure (\<lambda>(time, s). length (commands s) - commandCursor s)") auto

declare commandOfTime_loop.simps [simp del]

definition commandOfTime ::
  "rosTime \<Rightarrow> ('tw, 'p, 'cl, 'c, 'e) Repeat \<Rightarrow> error + ('tw \<times> ('tw, 'p, 'cl, 'c, 'e) Repeat)" where
  "commandOfTime time s =
     bindE (commandOfTime_loop time s) (\<lambda>s'.
     bindE (deref (commands s') (commandCursor s')) (\<lambda>c.
     Inr (twist c, s')))"

function poseOfTime_loop ::
  "rosTime \<Rightarrow> ('tw, 'p, 'cl, 'c, 'e) Repeat \<Rightarrow> error + ('tw, 'p, 'cl, 'c, 'e) Repeat" where
  "poseOfTime_loop time s =
     (if length (positions s) \<le> positionCursor s then Inl InvalidIterator
      else if pose_stamp (positions s ! positionCursor s) < time \<and>
              int (positionCursor s) < int (length (positions s)) - 1
      then poseOfTime_loop time (s\<lparr>positionCursor := Suc (positionCursor s)\<rparr>)
      else Inr s)"
  by pat_completeness auto
termination
  by (relation "measure (\<lambda>(time, s). length (positions s) - positionCursor s)") auto

declare poseOfTime_loop.simps [simp del]

definition poseOfTime ::
  "rosTime \<Rightarrow> ('tw, 'p, 'cl, 'c, 'e) Repeat \<Rightarrow> error + ('p \<times> ('tw, 'p, 'cl, 'c, 'e) Repeat)" where
  "poseOfTime time s =
     bindE (poseOfTime_loop time s) (\<lambda>s'.
     bindE (deref (positions s') (positionCursor s')) (\<lambda>p.
     Inr (pose p, s')))"

text \<open>
  The lookup as the specification words it (\<open>commandAt\<close>): the cursor advances while
  the NEXT entry's stamp is below \<open>time + lookahead\<close> and the cursor is not at the last
  element. It is here only to be compared with \<open>commandOfTime\<close>.
\<close>

function commandAt_spec_loop ::
  "rosTime \<Rightarrow> ('tw, 'p, 'cl, 'c, 'e) Repeat \<Rightarrow> ('tw, 'p, 'cl, 'c, 'e) Repeat" where
  "commandAt_spec_loop time s =
     (if Suc (commandCursor s) < length (commands s) \<and>
         twist_stamp (commands s ! Suc (commandCursor s)) < time + lookahead s
      then commandAt_spec_loop time (s\<lparr>commandCursor := Suc (commandCursor s)\<rparr>)
      else s)"
  by pat_completeness auto
termination
  by (relation "measure (\<lambda>(time, s). length (commands s) - commandCursor s)") auto

declare commandAt_spec_loop.simps [simp del]

definition commandAt_spec ::
  "rosTime \<Rightarrow> ('tw, 'p, 'cl, 'c, 'e) Repeat \<Rightarrow> error + ('tw \<times> ('tw, 'p, 'cl, 'c, 'e) Repeat)" where
  "commandAt_spec time s =
     (let s' = commandAt_spec_loop time s in
      bindE (deref (commands s') (commandCursor s')) (\<lambda>c. Inr (twist c, s')))"

section \<open>Playback clock and state machine\<close>

definition emit ::
  "('tw, 'p, 'cl, 'e) event \<Rightarrow> ('tw, 'p, 'cl, 'c, 'e) Repeat \<Rightarrow> ('tw, 'p, 'cl, 'c, 'e) Repeat" where
  "emit ev s = s\<lparr>events := events s @ [ev]\<rparr>"

text \<open>
  Each reading of \<^verbatim>\<open>ros::Time::now()\<close> is an argument \<open>now\<close> of the function that
  reads the clock.
\<close>

definition pausePlayback ::
  "('tw, 'p, 'cl, 'c, 'e, 'tf) Externals \<Rightarrow> rosTime \<Rightarrow>
   ('tw, 'p, 'cl, 'c, 'e) Repeat \<Rightarrow> ('tw, 'p, 'cl, 'c, 'e) Repeat" where
  "pausePlayback ext now s =
     (let s1 = emit (PublishCommand (idleTwistCommand ext)) s;
          s2 = s1\<lparr>baseSimTime := baseSimTime s1 + (now - timePlaybackStarted s1)\<rparr>
      in emit (RosInfoPausedAt (baseSimTime s2)) s2)"

definition startPlayback ::
  "rosTime \<Rightarrow> ('tw, 'p, 'cl, 'c, 'e) Repeat \<Rightarrow> ('tw, 'p, 'cl, 'c, 'e) Repeat" where
  "startPlayback now s = s\<lparr>timePlaybackStarted := now\<rparr>"

definition simTime :: "rosTime \<Rightarrow> ('tw, 'p, 'cl, 'c, 'e) Repeat \<Rightarrow> rosTime" where
  "simTime now s =
     (if currentStatus s = PLAY then baseSimTime s + (now - timePlaybackStarted s)
      else baseSimTime s)"

definition switchToStatus ::
  "('tw, 'p, 'cl, 'c, 'e, 'tf) Externals \<Rightarrow> rosTime \<Rightarrow> Status \<Rightarrow>
   ('tw, 'p, 'cl, 'c, 'e) Repeat \<Rightarrow> ('tw, 'p, 'cl, 'c, 'e) Repeat" where
  "switchToStatus ext now desiredStatus s =
     (let s1 = (if desiredStatus = ERROR \<and> currentStatus s \<noteq> ERROR
                then (pausePlayback ext now
                        (emit (RosWarn ''Switching to emergency mode.'') s))
                     \<lparr>currentStatus := ERROR\<rparr>
                else s)
      in case currentStatus s1 of
           PLAY \<Rightarrow>
             if desiredStatus = PAUSE
             then (pausePlayback ext now (emit (RosInfo ''Stopping playback.'') s1))
                  \<lparr>currentStatus := PAUSE\<rparr>
             else s1
         | PAUSE \<Rightarrow>
             if desiredStatus = PLAY
             then (startPlayback now (emit (RosInfo ''Starting playback.'') s1))
                  \<lparr>currentStatus := PLAY\<rparr>
             else s1
         | ERROR \<Rightarrow>
             if desiredStatus = PAUSE
             then (emit (RosInfo ''Attempting recovery.'') s1)\<lparr>currentStatus := PAUSE\<rparr>
             else s1)"

section \<open>Manual input\<close>

definition button :: "Joy \<Rightarrow> nat \<Rightarrow> error + int" where
  "button msg i =
     (if i < length (buttons msg) then Inr (buttons msg ! i) else Inl ButtonOutOfRange)"

definition joystickCallback ::
  "('tw, 'p, 'cl, 'c, 'e, 'tf) Externals \<Rightarrow> rosTime \<Rightarrow> Joy \<Rightarrow>
   ('tw, 'p, 'cl, 'c, 'e) Repeat \<Rightarrow> error + ('tw, 'p, 'cl, 'c, 'e) Repeat" where
  "joystickCallback ext now msg s =
     (case currentStatus s of
        PLAY \<Rightarrow>
          bindE (button msg (RB ext)) (\<lambda>b.
            Inr (if b = 0 then switchToStatus ext now PAUSE s else s))
      | PAUSE \<Rightarrow>
          bindE (button msg (RB ext)) (\<lambda>b.
            Inr (if b = 1 then switchToStatus ext now PLAY s else s))
      | ERROR \<Rightarrow>
          bindE (button msg (X ext)) (\<lambda>b.
            Inr (if b = 1 then switchToStatus ext now PAUSE s else s)))"

section \<open>Correction pipeline\<close>

text \<open>
  \<^verbatim>\<open>updateError\<close> runs on a thread of its own; here it is one step, from the state it
  finds to the state it leaves. \<open>nowSim\<close> is the clock read by \<^verbatim>\<open>simTime()\<close> on
  line 130, \<open>nowFail\<close> the clock read by \<^verbatim>\<open>pausePlayback()\<close> when the service fails.
  \<^verbatim>\<open>try_lock\<close> succeeds exactly when the mutex is free.
\<close>

definition updateError ::
  "('tw, 'p, 'cl, 'c, 'e, 'tf) Externals \<Rightarrow> rosTime \<Rightarrow> rosTime \<Rightarrow> 'cl \<Rightarrow>
   ('tw, 'p, 'cl, 'c, 'e) Repeat \<Rightarrow> error + ('tw, 'p, 'cl, 'c, 'e) Repeat" where
  "updateError ext nowSim nowFail reading s =
     bindE (poseOfTime (simTime nowSim s) s) (\<lambda>(p, s1).
     bindE (deref (anchorPoints s1) (anchorPointCursor s1)) (\<lambda>ap.
       let readings = transformReading ext p (getPosition ap) reading;
           reference = getCloud ap
       in if \<not> serviceCallLock s1
          then
            let s2 = emit (MatchCloudsCall readings reference) (s1\<lparr>serviceCallLock := True\<rparr>);
                s3 = (case matchClouds ext readings reference of
                        Some transform \<Rightarrow>
                          let rawError = controlErrorOfTransformation ext transform;
                              s' = emit (UpdateErrorCall rawError)
                                     (s2\<lparr>controller :=
                                            controllerUpdateError ext (controller s2) rawError\<rparr>)
                          in emit (PublishError rawError) s'
                      | None \<Rightarrow>
                          switchToStatus ext nowFail ERROR
                            (emit (RosWarn
                               ''There was a problem with the point matching service.'') s2))
            in Inr (s3\<lparr>serviceCallLock := False\<rparr>)
          else Inr (emit (RosInfo ''ICP service was busy, dropped a cloud.'') s1)))"

section \<open>Main loop\<close>

text \<open>
  What one cycle of \<^verbatim>\<open>spin\<close> reads from outside: \<^verbatim>\<open>ros::ok()\<close> at the loop
  test, the clock at lines 82, 100 and 113, and the callbacks \<^verbatim>\<open>ros::spinOnce()\<close>
  delivers. A scan callback starts a thread that runs \<^verbatim>\<open>updateError\<close>; in this model
  the thread runs to its end where the callback is delivered.
\<close>

datatype ('cl, 'c) callback =
    JoystickMsg rosTime Joy
  | CloudMsg rosTime rosTime 'cl
  | Reconfigure rosTime "'c \<Rightarrow> 'c"

record ('cl, 'c) Cycle =
  rosOk :: bool
  nowSpin :: rosTime
  nowSwitch :: rosTime
  nowReference :: rosTime
  pending :: "('cl, 'c) callback list"

text \<open>Lines 84 to 103: the distances to the current and the next anchor point, and the switch.\<close>

definition spinAnchorPoint ::
  "('tw, 'p, 'cl, 'c, 'e, 'tf) Externals \<Rightarrow> rosTime \<Rightarrow> rosTime \<Rightarrow>
   ('tw, 'p, 'cl, 'c, 'e) Repeat \<Rightarrow> error + ('tw, 'p, 'cl, 'c, 'e) Repeat" where
  "spinAnchorPoint ext timeOfSpin now s =
     bindE (poseOfTime timeOfSpin s) (\<lambda>(p, s1).
     bindE (deref (anchorPoints s1) (anchorPointCursor s1)) (\<lambda>ap.
     let distanceToCurrentAnchorPoint = customDistance ext p (getPosition ap) in
     bindE (if Suc (anchorPointCursor s1) \<noteq> length (anchorPoints s1)
            then bindE (poseOfTime timeOfSpin s1) (\<lambda>(p', s2).
                 bindE (deref (anchorPoints s2) (Suc (anchorPointCursor s2))) (\<lambda>nextAp.
                 Inr (customDistance ext p' (getPosition nextAp), s2)))
            else Inr (PlusInfinity, s1)) (\<lambda>(distanceToNextAnchorPoint, s2).
     if Suc (anchorPointCursor s2) < length (anchorPoints s2) \<and>
        double_ge distanceToCurrentAnchorPoint distanceToNextAnchorPoint
     then let s3 = s2\<lparr>anchorPointCursor := Suc (anchorPointCursor s2)\<rparr> in
          bindE (deref (anchorPoints s3) (anchorPointCursor s3)) (\<lambda>newAp.
          Inr (emit (PublishAnchorPointSwitch now (name newAp)) s3))
     else Inr s2)))"

text \<open>Lines 105 to 111: the command, only in PLAY.\<close>

definition spinCommand ::
  "('tw, 'p, 'cl, 'c, 'e, 'tf) Externals \<Rightarrow> rosTime \<Rightarrow>
   ('tw, 'p, 'cl, 'c, 'e) Repeat \<Rightarrow> error + ('tw, 'p, 'cl, 'c, 'e) Repeat" where
  "spinCommand ext timeOfSpin s =
     (if currentStatus s = PLAY
      then bindE (commandOfTime timeOfSpin s) (\<lambda>(cmd, s1).
           let (nextCommand, c') = correctCommand ext (controller s1) cmd in
           Inr (emit (PublishCommand nextCommand)
                  (emit (CorrectCommandCall cmd) (s1\<lparr>controller := c'\<rparr>))))
      else Inr s)"

text \<open>Line 113: the reference pose at the sim time read now.\<close>

definition spinReferencePose ::
  "rosTime \<Rightarrow> ('tw, 'p, 'cl, 'c, 'e) Repeat \<Rightarrow> error + ('tw, 'p, 'cl, 'c, 'e) Repeat" where
  "spinReferencePose now s =
     bindE (poseOfTime (simTime now s) s) (\<lambda>(p, s1).
     Inr (emit (PublishReferencePose p) s1))"

text \<open>Lines 82 to 113: the body of the loop up to \<^verbatim>\<open>ros::spinOnce()\<close>.\<close>

definition spinBody ::
  "('tw, 'p, 'cl, 'c, 'e, 'tf) Externals \<Rightarrow> ('cl, 'c) Cycle \<Rightarrow>
   ('tw, 'p, 'cl, 'c, 'e) Repeat \<Rightarrow> error + ('tw, 'p, 'cl, 'c, 'e) Repeat" where
  "spinBody ext cy s =
     (let timeOfSpin = simTime (nowSpin cy) s in
      bindE (spinAnchorPoint ext timeOfSpin (nowSwitch cy) s) (\<lambda>s1.
      bindE (spinCommand ext timeOfSpin s1) (\<lambda>s2.
      spinReferencePose (nowReference cy) s2)))"

definition paramCallback ::
  "rosTime \<Rightarrow> ('c \<Rightarrow> 'c) \<Rightarrow> ('tw, 'p, 'cl, 'c, 'e) Repeat \<Rightarrow> ('tw, 'p, 'cl, 'c, 'e) Repeat" where
  "paramCallback newLookahead updateParams s =
     s\<lparr>lookahead := newLookahead, controller := updateParams (controller s)\<rparr>"

fun spinOnce ::
  "('tw, 'p, 'cl, 'c, 'e, 'tf) Externals \<Rightarrow> ('cl, 'c) callback list \<Rightarrow>
   ('tw, 'p, 'cl, 'c, 'e) Repeat \<Rightarrow> error + ('tw, 'p, 'cl, 'c, 'e) Repeat" where
  "spinOnce ext [] s = Inr s"
| "spinOnce ext (JoystickMsg now msg # cbs) s =
     bindE (joystickCallback ext now msg s) (spinOnce ext cbs)"
| "spinOnce ext (CloudMsg nowSim nowFail reading # cbs) s =
     bindE (updateError ext nowSim nowFail reading s) (spinOnce ext cbs)"
| "spinOnce ext (Reconfigure newLookahead updateParams # cbs) s =
     spinOnce ext cbs (paramCallback newLookahead updateParams s)"

text \<open>
  The loop of \<^verbatim>\<open>spin\<close>, one element of the list for each evaluation of the loop test.
  \<open>None\<close>: the list ended while the loop was still running. \<open>Some (Inr s)\<close>: the loop
  test failed and \<^verbatim>\<open>spin\<close> returned in state \<open>s\<close>. The test reads \<^verbatim>\<open>ros::ok()\<close>
  first and forms \<^verbatim>\<open>commands.end() - 1\<close> only when that is true. For an empty vector
  \<^verbatim>\<open>end()\<close> is \<^verbatim>\<open>begin()\<close> and the iterator before it does not exist: forming it is
  undefined, as dereferencing \<^verbatim>\<open>end()\<close> is, and the model returns the same error.
\<close>

fun spin ::
  "('tw, 'p, 'cl, 'c, 'e, 'tf) Externals \<Rightarrow> ('cl, 'c) Cycle list \<Rightarrow>
   ('tw, 'p, 'cl, 'c, 'e) Repeat \<Rightarrow> (error + ('tw, 'p, 'cl, 'c, 'e) Repeat) option" where
  "spin ext [] s = None"
| "spin ext (cy # cys) s =
     (if \<not> rosOk cy then Some (Inr s)
      else if commands s = [] then Some (Inl InvalidIterator)
      else if int (commandCursor s) < int (length (commands s)) - 1
      then (case bindE (spinBody ext cy s) (spinOnce ext (pending cy)) of
              Inl e \<Rightarrow> Some (Inl e)
            | Inr s' \<Rightarrow> spin ext cys s')
      else Some (Inr s))"

text \<open>The constructor, lines 52 to 55, with the sequences as loaded and the members' defaults.\<close>

definition initRepeat ::
  "'tw TwistStamped list \<Rightarrow> 'p PoseStamped list \<Rightarrow> ('p, 'cl) AnchorPoint list \<Rightarrow>
   rosTime \<Rightarrow> 'c \<Rightarrow> ('tw, 'p, 'cl, 'c, 'e) Repeat" where
  "initRepeat cmds poss aps la ctrl =
     \<lparr>commands = cmds, positions = poss, anchorPoints = aps,
      commandCursor = 0, positionCursor = 0, anchorPointCursor = 0,
      currentStatus = PAUSE, baseSimTime = 0, timePlaybackStarted = 0,
      lookahead = la, controller = ctrl, serviceCallLock = False, events = []\<rparr>"

section \<open>Example inputs\<close>

text \<open>
  A taught trajectory of three commands and three poses, stamped 0, 10 and 20, two anchor
  points, and a lookahead of 5; collaborators simple enough to evaluate.
\<close>

definition exampleExternals :: "(string, int, string, nat, string, string) Externals" where
  "exampleExternals =
     \<lparr>customDistance = (\<lambda>p q. Finite (real_of_int \<bar>p - q\<bar>)),
      correctCommand = (\<lambda>c tw. (tw @ ''+'', Suc c)),
      controllerUpdateError = (\<lambda>c e. c + length e),
      controlErrorOfTransformation = (\<lambda>tf. tf),
      idleTwistCommand = ''idle'',
      transformReading = (\<lambda>p q r. r),
      matchClouds = (\<lambda>a b. if a = b then Some ''id'' else None),
      RB = 5, X = 2\<rparr>"

definition exampleRepeat :: "(string, int, string, nat, string) Repeat" where
  "exampleRepeat =
     initRepeat
       [\<lparr>twist_stamp = 0, twist = ''a''\<rparr>, \<lparr>twist_stamp = 10, twist = ''b''\<rparr>,
        \<lparr>twist_stamp = 20, twist = ''c''\<rparr>]
       [\<lparr>pose_stamp = 0, pose = 0\<rparr>, \<lparr>pose_stamp = 10, pose = 10\<rparr>,
        \<lparr>pose_stamp = 20, pose = 20\<rparr>]
       [\<lparr>name = ''ap0'', getPosition = 0, getCloud = ''cloud0''\<rparr>,
        \<lparr>name = ''ap1'', getPosition = 20, getCloud = ''cloud1''\<rparr>]
       5 0"


definition examplePlaying :: "(string, int, string, nat, string) Repeat" where
  "examplePlaying = switchToStatus exampleExternals 1 PLAY exampleRepeat"

definition exampleFailed :: "(string, int, string, nat, string) Repeat" where
  "exampleFailed = switchToStatus exampleExternals 11 ERROR examplePlaying"

text \<open>Joystick messages with the RB button (index 5 in the example) held and released.\<close>

definition exampleHeld :: Joy where
  "exampleHeld = \<lparr>buttons = [0, 0, 0, 0, 0, 1]\<rparr>"

definition exampleReleased :: Joy where
  "exampleReleased = \<lparr>buttons = [0, 0, 0, 0, 0, 0]\<rparr>"

text \<open>One cycle of the loop, with no callback pending.\<close>

definition exampleCycle :: "(string, nat) Cycle" where
  "exampleCycle =
     \<lparr>rosOk = True, nowSpin = 12, nowSwitch = 13, nowReference = 14, pending = []\<rparr>"

text \<open>The state the constructor leaves when the command file could not be read.\<close>

definition exampleUntaught :: "(string, int, string, nat, string) Repeat" where
  "exampleUntaught = exampleRepeat\<lparr>commands := []\<rparr>"

section \<open>The cursor loops\<close>

text \<open>
  From a cursor that points at an element, the loop of \<open>commandOfTime\<close> returns the
  first position from the cursor on that is the last one or whose entry is not stamped
  before \<open>time + lookahead\<close>; nothing else of the state changes.
\<close>

lemma commandOfTime_loop_char:
  "commandCursor s < length (commands s) \<Longrightarrow>
   \<exists>c'. commandOfTime_loop t s = Inr (s\<lparr>commandCursor := c'\<rparr>) \<and>
        commandCursor s \<le> c' \<and> c' < length (commands s) \<and>
        (\<forall>i. commandCursor s \<le> i \<and> i < c' \<longrightarrow>
             twist_stamp (commands s ! i) < t + lookahead s) \<and>
        (c' = length (commands s) - 1 \<or>
         \<not> twist_stamp (commands s ! c') < t + lookahead s)"
proof (induction t s rule: commandOfTime_loop.induct)
  case (1 time s)
  let ?c = "commandCursor s"
  show ?case
  proof (cases "twist_stamp (commands s ! ?c) < time + lookahead s \<and>
                int ?c < int (length (commands s)) - 1")
    case True
    let ?s' = "s\<lparr>commandCursor := Suc ?c\<rparr>"
    from True have lt: "Suc ?c < length (commands s)" by linarith
    from "1.IH" [OF _ True] "1.prems" lt
    obtain c' where c': "commandOfTime_loop time ?s' = Inr (?s'\<lparr>commandCursor := c'\<rparr>)"
      "Suc ?c \<le> c'" "c' < length (commands s)"
      "\<forall>i. Suc ?c \<le> i \<and> i < c' \<longrightarrow> twist_stamp (commands s ! i) < time + lookahead s"
      "c' = length (commands s) - 1 \<or> \<not> twist_stamp (commands s ! c') < time + lookahead s"
      by auto
    have eq: "commandOfTime_loop time s = Inr (s\<lparr>commandCursor := c'\<rparr>)"
      using True "1.prems" c'(1) by (subst commandOfTime_loop.simps) simp
    have "\<forall>i. ?c \<le> i \<and> i < c' \<longrightarrow> twist_stamp (commands s ! i) < time + lookahead s"
    proof (intro allI impI)
      fix i assume i: "?c \<le> i \<and> i < c'"
      show "twist_stamp (commands s ! i) < time + lookahead s"
      proof (cases "i = ?c")
        case True
        with \<open>twist_stamp (commands s ! ?c) < time + lookahead s \<and> _\<close> show ?thesis by simp
      next
        case False
        with i have "Suc ?c \<le> i \<and> i < c'" by simp
        with c'(4) show ?thesis by blast
      qed
    qed
    with eq c' show ?thesis by (intro exI [of _ c']) auto
  next
    case False
    have eq: "commandOfTime_loop time s = Inr s"
      using False "1.prems" by (subst commandOfTime_loop.simps) auto
    have "int ?c < int (length (commands s)) - 1 \<or> ?c = length (commands s) - 1"
      using "1.prems" by linarith
    with False eq "1.prems" show ?thesis
      by (intro exI [of _ ?c]) auto
  qed
qed

lemma poseOfTime_loop_char:
  "positionCursor s < length (positions s) \<Longrightarrow>
   \<exists>c'. poseOfTime_loop t s = Inr (s\<lparr>positionCursor := c'\<rparr>) \<and>
        positionCursor s \<le> c' \<and> c' < length (positions s) \<and>
        (\<forall>i. positionCursor s \<le> i \<and> i < c' \<longrightarrow> pose_stamp (positions s ! i) < t) \<and>
        (c' = length (positions s) - 1 \<or> \<not> pose_stamp (positions s ! c') < t)"
proof (induction t s rule: poseOfTime_loop.induct)
  case (1 time s)
  let ?c = "positionCursor s"
  show ?case
  proof (cases "pose_stamp (positions s ! ?c) < time \<and>
                int ?c < int (length (positions s)) - 1")
    case True
    let ?s' = "s\<lparr>positionCursor := Suc ?c\<rparr>"
    from True have lt: "Suc ?c < length (positions s)" by linarith
    from "1.IH" [OF _ True] "1.prems" lt
    obtain c' where c': "poseOfTime_loop time ?s' = Inr (?s'\<lparr>positionCursor := c'\<rparr>)"
      "Suc ?c \<le> c'" "c' < length (positions s)"
      "\<forall>i. Suc ?c \<le> i \<and> i < c' \<longrightarrow> pose_stamp (positions s ! i) < time"
      "c' = length (positions s) - 1 \<or> \<not> pose_stamp (positions s ! c') < time"
      by auto
    have eq: "poseOfTime_loop time s = Inr (s\<lparr>positionCursor := c'\<rparr>)"
      using True "1.prems" c'(1) by (subst poseOfTime_loop.simps) simp
    have "\<forall>i. ?c \<le> i \<and> i < c' \<longrightarrow> pose_stamp (positions s ! i) < time"
    proof (intro allI impI)
      fix i assume i: "?c \<le> i \<and> i < c'"
      show "pose_stamp (positions s ! i) < time"
      proof (cases "i = ?c")
        case True
        with \<open>pose_stamp (positions s ! ?c) < time \<and> _\<close> show ?thesis by simp
      next
        case False
        with i have "Suc ?c \<le> i \<and> i < c'" by simp
        with c'(4) show ?thesis by blast
      qed
    qed
    with eq c' show ?thesis by (intro exI [of _ c']) auto
  next
    case False
    have eq: "poseOfTime_loop time s = Inr s"
      using False "1.prems" by (subst poseOfTime_loop.simps) auto
    have "int ?c < int (length (positions s)) - 1 \<or> ?c = length (positions s) - 1"
      using "1.prems" by linarith
    with False eq "1.prems" show ?thesis
      by (intro exI [of _ ?c]) auto
  qed
qed

text \<open>
  Two facts about "the first position from \<open>c\<close> on that is the last one or fails
  \<open>P\<close>": it is unique, and it moves forward when \<open>P\<close> grows.
\<close>

lemma first_stop_mono:
  fixes a b c n :: nat
  assumes "a < n" "\<forall>i. c \<le> i \<and> i < a \<longrightarrow> P i"
    and "c \<le> b" "b = n - 1 \<or> \<not> Q b" "\<forall>i. P i \<longrightarrow> Q i"
  shows "a \<le> b"
proof (rule ccontr)
  assume "\<not> a \<le> b"
  then have ba: "b < a" by simp
  with assms(2,3) have "P b" by blast
  with assms(5) have "Q b" by blast
  with assms(4) have "b = n - 1" by blast
  with ba assms(1) show False by linarith
qed

lemma first_stop_unique:
  fixes a b c n :: nat
  assumes "c \<le> a" "a < n" "\<forall>i. c \<le> i \<and> i < a \<longrightarrow> P i" "a = n - 1 \<or> \<not> P a"
    and "c \<le> b" "b < n" "\<forall>i. c \<le> i \<and> i < b \<longrightarrow> P i" "b = n - 1 \<or> \<not> P b"
  shows "a = b"
proof -
  have "a \<le> b" using first_stop_mono [of a n c P b P] assms by blast
  moreover have "b \<le> a" using first_stop_mono [of b n c P a P] assms by blast
  ultimately show ?thesis by simp
qed

text \<open>The same for the whole lookups, with the value they return.\<close>

lemma commandOfTime_char:
  assumes "commandCursor s < length (commands s)"
  shows "\<exists>c'. commandOfTime t s = Inr (twist (commands s ! c'), s\<lparr>commandCursor := c'\<rparr>) \<and>
           commandCursor s \<le> c' \<and> c' < length (commands s) \<and>
           (\<forall>i. commandCursor s \<le> i \<and> i < c' \<longrightarrow>
                twist_stamp (commands s ! i) < t + lookahead s) \<and>
           (c' = length (commands s) - 1 \<or>
            \<not> twist_stamp (commands s ! c') < t + lookahead s)"
proof -
  from commandOfTime_loop_char [OF assms, of t]
  obtain c' where c': "commandOfTime_loop t s = Inr (s\<lparr>commandCursor := c'\<rparr>)"
    "commandCursor s \<le> c'" "c' < length (commands s)"
    "\<forall>i. commandCursor s \<le> i \<and> i < c' \<longrightarrow> twist_stamp (commands s ! i) < t + lookahead s"
    "c' = length (commands s) - 1 \<or> \<not> twist_stamp (commands s ! c') < t + lookahead s"
    by blast
  have "commandOfTime t s = Inr (twist (commands s ! c'), s\<lparr>commandCursor := c'\<rparr>)"
    using c'(1,3) by (simp add: commandOfTime_def bindE_def deref_def)
  with c' show ?thesis by blast
qed

lemma poseOfTime_char:
  assumes "positionCursor s < length (positions s)"
  shows "\<exists>c'. poseOfTime t s = Inr (pose (positions s ! c'), s\<lparr>positionCursor := c'\<rparr>) \<and>
           positionCursor s \<le> c' \<and> c' < length (positions s) \<and>
           (\<forall>i. positionCursor s \<le> i \<and> i < c' \<longrightarrow> pose_stamp (positions s ! i) < t) \<and>
           (c' = length (positions s) - 1 \<or> \<not> pose_stamp (positions s ! c') < t)"
proof -
  from poseOfTime_loop_char [OF assms, of t]
  obtain c' where c': "poseOfTime_loop t s = Inr (s\<lparr>positionCursor := c'\<rparr>)"
    "positionCursor s \<le> c'" "c' < length (positions s)"
    "\<forall>i. positionCursor s \<le> i \<and> i < c' \<longrightarrow> pose_stamp (positions s ! i) < t"
    "c' = length (positions s) - 1 \<or> \<not> pose_stamp (positions s ! c') < t"
    by blast
  have "poseOfTime t s = Inr (pose (positions s ! c'), s\<lparr>positionCursor := c'\<rparr>)"
    using c'(1,3) by (simp add: poseOfTime_def bindE_def deref_def)
  with c' show ?thesis by blast
qed

section \<open>The lookups by time\<close>

text \<open>
  C1, as amended. For every query time \<open>t\<close> and every state whose command cursor points
  at an element, \<open>commandOfTime t\<close> advances the cursor while the entry AT the cursor
  (not the next one) is stamped before \<open>t + lookahead\<close> and the cursor is not at the last
  element: the cursor stops at the first position from where it was that is the last one
  or whose stamp is not below \<open>t + lookahead\<close>. It returns the twist at that position and
  changes nothing but the cursor.
\<close>

theorem commandOfTime_advances_on_cursor_entry:
  assumes "commandCursor s < length (commands s)"
  shows "\<exists>c'. commandOfTime t s = Inr (twist (commands s ! c'), s\<lparr>commandCursor := c'\<rparr>) \<and>
           commandCursor s \<le> c' \<and> c' < length (commands s) \<and>
           (\<forall>i. commandCursor s \<le> i \<and> i < c' \<longrightarrow>
                twist_stamp (commands s ! i) < t + lookahead s) \<and>
           (c' = length (commands s) - 1 \<or>
            \<not> twist_stamp (commands s ! c') < t + lookahead s)"
  using assms by (rule commandOfTime_char)

text \<open>
  The theorem at the example, with query time 4 and lookahead 5: the entry stamped 0 is
  passed, the cursor stops on the entry stamped 10 and its twist is returned.
\<close>

theorem commandOfTime_advances_on_cursor_entry_witness:
  "commandCursor exampleRepeat < length (commands exampleRepeat) \<and>
   (\<exists>c'. commandOfTime 4 exampleRepeat =
          Inr (twist (commands exampleRepeat ! c'), exampleRepeat\<lparr>commandCursor := c'\<rparr>) \<and>
        commandCursor exampleRepeat \<le> c' \<and> c' < length (commands exampleRepeat) \<and>
        (\<forall>i. commandCursor exampleRepeat \<le> i \<and> i < c' \<longrightarrow>
             twist_stamp (commands exampleRepeat ! i) < 4 + lookahead exampleRepeat) \<and>
        (c' = length (commands exampleRepeat) - 1 \<or>
         \<not> twist_stamp (commands exampleRepeat ! c') < 4 + lookahead exampleRepeat))"
proof -
  have h: "commandCursor exampleRepeat < length (commands exampleRepeat)"
    by (simp add: exampleRepeat_def initRepeat_def)
  from commandOfTime_advances_on_cursor_entry [OF h, of 4] h show ?thesis by blast
qed

text \<open>
  C1 as the specification states it fails at the same input: the next entry's stamp, 10,
  is not below 4 + 5, so the rule "advance while the next timestamp is below the query
  time plus the lookahead" keeps the cursor on the first entry and returns its twist,
  while the code moves the cursor to the second entry and returns that twist.
\<close>

theorem commandOfTime_next_entry_rule_counterexample:
  "commandOfTime 4 exampleRepeat = Inr (''b'', exampleRepeat\<lparr>commandCursor := 1\<rparr>) \<and>
   commandAt_spec 4 exampleRepeat = Inr (''a'', exampleRepeat) \<and>
   \<not> twist_stamp (commands exampleRepeat ! 1) < 4 + lookahead exampleRepeat"
  by (simp add: commandOfTime_def commandAt_spec_def exampleRepeat_def initRepeat_def
      commandOfTime_loop.simps commandAt_spec_loop.simps bindE_def deref_def)

text \<open>
  Two lookups from one state, at times \<open>t1 \<le> t2\<close>: the later time leaves the cursor
  at least as far; asking for \<open>t2\<close> after \<open>t1\<close> ends where asking for \<open>t2\<close> at once
  ends; the cursor stays on an element, the last one when every stamp is below the bound.
\<close>

lemma commandOfTime_monotone:
  assumes valid: "commandCursor s < length (commands s)" and le: "t1 \<le> t2"
  shows "\<exists>c1 c2. commandOfTime t1 s =
                   Inr (twist (commands s ! c1), s\<lparr>commandCursor := c1\<rparr>) \<and>
                 commandOfTime t2 s =
                   Inr (twist (commands s ! c2), s\<lparr>commandCursor := c2\<rparr>) \<and>
                 commandOfTime t2 (s\<lparr>commandCursor := c1\<rparr>) =
                   Inr (twist (commands s ! c2), s\<lparr>commandCursor := c2\<rparr>) \<and>
                 commandCursor s \<le> c1 \<and> c1 \<le> c2 \<and> c2 < length (commands s) \<and>
                 ((\<forall>i < length (commands s). twist_stamp (commands s ! i) < t2 + lookahead s)
                    \<longrightarrow> c2 = length (commands s) - 1)"
proof -
  let ?n = "length (commands s)"
  let ?P1 = "\<lambda>i. twist_stamp (commands s ! i) < t1 + lookahead s"
  let ?P2 = "\<lambda>i. twist_stamp (commands s ! i) < t2 + lookahead s"
  from commandOfTime_char [OF valid, of t1]
  obtain c1 where c1: "commandOfTime t1 s =
        Inr (twist (commands s ! c1), s\<lparr>commandCursor := c1\<rparr>)"
    "commandCursor s \<le> c1" "c1 < ?n"
    "\<forall>i. commandCursor s \<le> i \<and> i < c1 \<longrightarrow> ?P1 i" "c1 = ?n - 1 \<or> \<not> ?P1 c1"
    by blast
  from commandOfTime_char [OF valid, of t2]
  obtain c2 where c2: "commandOfTime t2 s =
        Inr (twist (commands s ! c2), s\<lparr>commandCursor := c2\<rparr>)"
    "commandCursor s \<le> c2" "c2 < ?n"
    "\<forall>i. commandCursor s \<le> i \<and> i < c2 \<longrightarrow> ?P2 i" "c2 = ?n - 1 \<or> \<not> ?P2 c2"
    by blast
  let ?s1 = "s\<lparr>commandCursor := c1\<rparr>"
  have valid1: "commandCursor ?s1 < length (commands ?s1)" using c1(3) by simp
  from commandOfTime_char [OF valid1, of t2]
  obtain c3 where c3: "commandOfTime t2 ?s1 =
        Inr (twist (commands s ! c3), s\<lparr>commandCursor := c3\<rparr>)"
    "c1 \<le> c3" "c3 < ?n"
    "\<forall>i. c1 \<le> i \<and> i < c3 \<longrightarrow> ?P2 i" "c3 = ?n - 1 \<or> \<not> ?P2 c3"
    by auto
  have imp: "\<forall>i. ?P1 i \<longrightarrow> ?P2 i" using le by auto
  have c12: "c1 \<le> c2"
    using first_stop_mono [of c1 ?n "commandCursor s" ?P1 c2 ?P2] c1 c2 imp by blast
  have "\<forall>i. c1 \<le> i \<and> i < c2 \<longrightarrow> ?P2 i" using c2(4) c1(2) by auto
  then have "c3 = c2"
    using first_stop_unique [of c1 c3 ?n ?P2 c2] c3 c2 c12 by blast
  moreover have "(\<forall>i < ?n. ?P2 i) \<longrightarrow> c2 = ?n - 1" using c2(3,5) by blast
  ultimately show ?thesis using c1 c2 c3 c12 by blast
qed

lemma poseOfTime_monotone:
  assumes valid: "positionCursor s < length (positions s)" and le: "t1 \<le> t2"
  shows "\<exists>c1 c2. poseOfTime t1 s =
                   Inr (pose (positions s ! c1), s\<lparr>positionCursor := c1\<rparr>) \<and>
                 poseOfTime t2 s =
                   Inr (pose (positions s ! c2), s\<lparr>positionCursor := c2\<rparr>) \<and>
                 poseOfTime t2 (s\<lparr>positionCursor := c1\<rparr>) =
                   Inr (pose (positions s ! c2), s\<lparr>positionCursor := c2\<rparr>) \<and>
                 positionCursor s \<le> c1 \<and> c1 \<le> c2 \<and> c2 < length (positions s) \<and>
                 ((\<forall>i < length (positions s). pose_stamp (positions s ! i) < t2)
                    \<longrightarrow> c2 = length (positions s) - 1)"
proof -
  let ?n = "length (positions s)"
  let ?P1 = "\<lambda>i. pose_stamp (positions s ! i) < t1"
  let ?P2 = "\<lambda>i. pose_stamp (positions s ! i) < t2"
  from poseOfTime_char [OF valid, of t1]
  obtain c1 where c1: "poseOfTime t1 s =
        Inr (pose (positions s ! c1), s\<lparr>positionCursor := c1\<rparr>)"
    "positionCursor s \<le> c1" "c1 < ?n"
    "\<forall>i. positionCursor s \<le> i \<and> i < c1 \<longrightarrow> ?P1 i" "c1 = ?n - 1 \<or> \<not> ?P1 c1"
    by blast
  from poseOfTime_char [OF valid, of t2]
  obtain c2 where c2: "poseOfTime t2 s =
        Inr (pose (positions s ! c2), s\<lparr>positionCursor := c2\<rparr>)"
    "positionCursor s \<le> c2" "c2 < ?n"
    "\<forall>i. positionCursor s \<le> i \<and> i < c2 \<longrightarrow> ?P2 i" "c2 = ?n - 1 \<or> \<not> ?P2 c2"
    by blast
  let ?s1 = "s\<lparr>positionCursor := c1\<rparr>"
  have valid1: "positionCursor ?s1 < length (positions ?s1)" using c1(3) by simp
  from poseOfTime_char [OF valid1, of t2]
  obtain c3 where c3: "poseOfTime t2 ?s1 =
        Inr (pose (positions s ! c3), s\<lparr>positionCursor := c3\<rparr>)"
    "c1 \<le> c3" "c3 < ?n"
    "\<forall>i. c1 \<le> i \<and> i < c3 \<longrightarrow> ?P2 i" "c3 = ?n - 1 \<or> \<not> ?P2 c3"
    by auto
  have imp: "\<forall>i. ?P1 i \<longrightarrow> ?P2 i" using le by auto
  have c12: "c1 \<le> c2"
    using first_stop_mono [of c1 ?n "positionCursor s" ?P1 c2 ?P2] c1 c2 imp by blast
  have "\<forall>i. c1 \<le> i \<and> i < c2 \<longrightarrow> ?P2 i" using c2(4) c1(2) by auto
  then have "c3 = c2"
    using first_stop_unique [of c1 c3 ?n ?P2 c2] c3 c2 c12 by blast
  moreover have "(\<forall>i < ?n. ?P2 i) \<longrightarrow> c2 = ?n - 1" using c2(3,5) by blast
  ultimately show ?thesis using c1 c2 c3 c12 by blast
qed

text \<open>
  C7. For query times \<open>t1 \<le> t2\<close> and a command cursor that points at an element: the
  cursor after \<open>commandOfTime t1\<close> is not before the cursor it started from, the cursor
  after \<open>commandOfTime t2\<close> (asked after \<open>t1\<close>, or from the same state) is not before
  the cursor after \<open>commandOfTime t1\<close>, and it is still the position of an element, the
  last one when \<open>t2 + lookahead\<close> is beyond every recorded stamp. The same holds for
  \<open>poseOfTime\<close> and the pose cursor, with the bound \<open>t2\<close>.
\<close>

theorem cursors_monotone_and_bounded:
  assumes "t1 \<le> t2"
  shows "(commandCursor s < length (commands s) \<longrightarrow>
          (\<exists>c1 c2. commandOfTime t1 s =
                     Inr (twist (commands s ! c1), s\<lparr>commandCursor := c1\<rparr>) \<and>
                   commandOfTime t2 s =
                     Inr (twist (commands s ! c2), s\<lparr>commandCursor := c2\<rparr>) \<and>
                   commandOfTime t2 (s\<lparr>commandCursor := c1\<rparr>) =
                     Inr (twist (commands s ! c2), s\<lparr>commandCursor := c2\<rparr>) \<and>
                   commandCursor s \<le> c1 \<and> c1 \<le> c2 \<and> c2 < length (commands s) \<and>
                   ((\<forall>i < length (commands s).
                        twist_stamp (commands s ! i) < t2 + lookahead s)
                      \<longrightarrow> c2 = length (commands s) - 1))) \<and>
         (positionCursor s < length (positions s) \<longrightarrow>
          (\<exists>c1 c2. poseOfTime t1 s =
                     Inr (pose (positions s ! c1), s\<lparr>positionCursor := c1\<rparr>) \<and>
                   poseOfTime t2 s =
                     Inr (pose (positions s ! c2), s\<lparr>positionCursor := c2\<rparr>) \<and>
                   poseOfTime t2 (s\<lparr>positionCursor := c1\<rparr>) =
                     Inr (pose (positions s ! c2), s\<lparr>positionCursor := c2\<rparr>) \<and>
                   positionCursor s \<le> c1 \<and> c1 \<le> c2 \<and> c2 < length (positions s) \<and>
                   ((\<forall>i < length (positions s). pose_stamp (positions s ! i) < t2)
                      \<longrightarrow> c2 = length (positions s) - 1)))"
  using commandOfTime_monotone [of s t1 t2] poseOfTime_monotone [of s t1 t2] assms
  by blast

text \<open>
  The theorem at the example, asked for time 4 and then for time 100, which is beyond the
  last stamp: the command cursor goes from 0 to 1 to 2, the pose cursor from 0 to 1 to 2,
  and 2 is the last position of both sequences.
\<close>

theorem cursors_monotone_and_bounded_witness:
  "(4::int) \<le> 100 \<and>
   commandCursor exampleRepeat < length (commands exampleRepeat) \<and>
   positionCursor exampleRepeat < length (positions exampleRepeat) \<and>
   commandOfTime 4 exampleRepeat = Inr (''b'', exampleRepeat\<lparr>commandCursor := 1\<rparr>) \<and>
   commandOfTime 100 (exampleRepeat\<lparr>commandCursor := 1\<rparr>) =
     Inr (''c'', exampleRepeat\<lparr>commandCursor := 2\<rparr>) \<and>
   poseOfTime 4 exampleRepeat = Inr (10, exampleRepeat\<lparr>positionCursor := 1\<rparr>) \<and>
   poseOfTime 100 (exampleRepeat\<lparr>positionCursor := 1\<rparr>) =
     Inr (20, exampleRepeat\<lparr>positionCursor := 2\<rparr>) \<and>
   (\<exists>c1 c2. commandOfTime 4 exampleRepeat =
              Inr (twist (commands exampleRepeat ! c1), exampleRepeat\<lparr>commandCursor := c1\<rparr>) \<and>
            commandOfTime 100 (exampleRepeat\<lparr>commandCursor := c1\<rparr>) =
              Inr (twist (commands exampleRepeat ! c2), exampleRepeat\<lparr>commandCursor := c2\<rparr>) \<and>
            c1 \<le> c2 \<and> c2 < length (commands exampleRepeat)) \<and>
   (\<exists>c1 c2. poseOfTime 4 exampleRepeat =
              Inr (pose (positions exampleRepeat ! c1), exampleRepeat\<lparr>positionCursor := c1\<rparr>) \<and>
            poseOfTime 100 (exampleRepeat\<lparr>positionCursor := c1\<rparr>) =
              Inr (pose (positions exampleRepeat ! c2), exampleRepeat\<lparr>positionCursor := c2\<rparr>) \<and>
            c1 \<le> c2 \<and> c2 < length (positions exampleRepeat))"
proof -
  have le: "(4::int) \<le> 100" by simp
  have hc: "commandCursor exampleRepeat < length (commands exampleRepeat)"
    by (simp add: exampleRepeat_def initRepeat_def)
  have hp: "positionCursor exampleRepeat < length (positions exampleRepeat)"
    by (simp add: exampleRepeat_def initRepeat_def)
  have ev: "commandOfTime 4 exampleRepeat = Inr (''b'', exampleRepeat\<lparr>commandCursor := 1\<rparr>)"
    "commandOfTime 100 (exampleRepeat\<lparr>commandCursor := 1\<rparr>) =
       Inr (''c'', exampleRepeat\<lparr>commandCursor := 2\<rparr>)"
    "poseOfTime 4 exampleRepeat = Inr (10, exampleRepeat\<lparr>positionCursor := 1\<rparr>)"
    "poseOfTime 100 (exampleRepeat\<lparr>positionCursor := 1\<rparr>) =
       Inr (20, exampleRepeat\<lparr>positionCursor := 2\<rparr>)"
    by (simp_all add: commandOfTime_def poseOfTime_def exampleRepeat_def initRepeat_def
        commandOfTime_loop.simps poseOfTime_loop.simps bindE_def deref_def)
  from cursors_monotone_and_bounded [OF le, of exampleRepeat] hc hp
  have "(\<exists>c1 c2. commandOfTime 4 exampleRepeat =
              Inr (twist (commands exampleRepeat ! c1), exampleRepeat\<lparr>commandCursor := c1\<rparr>) \<and>
            commandOfTime 100 (exampleRepeat\<lparr>commandCursor := c1\<rparr>) =
              Inr (twist (commands exampleRepeat ! c2), exampleRepeat\<lparr>commandCursor := c2\<rparr>) \<and>
            c1 \<le> c2 \<and> c2 < length (commands exampleRepeat)) \<and>
   (\<exists>c1 c2. poseOfTime 4 exampleRepeat =
              Inr (pose (positions exampleRepeat ! c1), exampleRepeat\<lparr>positionCursor := c1\<rparr>) \<and>
            poseOfTime 100 (exampleRepeat\<lparr>positionCursor := c1\<rparr>) =
              Inr (pose (positions exampleRepeat ! c2), exampleRepeat\<lparr>positionCursor := c2\<rparr>) \<and>
            c1 \<le> c2 \<and> c2 < length (positions exampleRepeat))"
    by blast
  with le hc hp ev show ?thesis by blast
qed

section \<open>The state machine\<close>

text \<open>What \<open>pausePlayback\<close> and \<open>switchToStatus\<close> do, field by field and case by case.\<close>

lemma pausePlayback_fields:
  "pausePlayback ext now s =
     s\<lparr>events := events s @ [PublishCommand (idleTwistCommand ext),
                               RosInfoPausedAt (baseSimTime s + (now - timePlaybackStarted s))],
       baseSimTime := baseSimTime s + (now - timePlaybackStarted s)\<rparr>"
  by (simp add: pausePlayback_def emit_def Let_def)

lemma switchToStatus_cases:
  "switchToStatus ext now d s =
     (if d = ERROR \<and> currentStatus s \<noteq> ERROR
      then (pausePlayback ext now (emit (RosWarn ''Switching to emergency mode.'') s))
           \<lparr>currentStatus := ERROR\<rparr>
      else if currentStatus s = PLAY \<and> d = PAUSE
      then (pausePlayback ext now (emit (RosInfo ''Stopping playback.'') s))
           \<lparr>currentStatus := PAUSE\<rparr>
      else if currentStatus s = PAUSE \<and> d = PLAY
      then (startPlayback now (emit (RosInfo ''Starting playback.'') s))
           \<lparr>currentStatus := PLAY\<rparr>
      else if currentStatus s = ERROR \<and> d = PAUSE
      then (emit (RosInfo ''Attempting recovery.'') s)\<lparr>currentStatus := PAUSE\<rparr>
      else s)"
  by (cases "currentStatus s"; cases d) (simp_all add: switchToStatus_def)


lemma switchToStatus_status:
  "currentStatus (switchToStatus ext now d s) =
     (if d = ERROR then ERROR
      else if currentStatus s = PLAY \<and> d = PAUSE then PAUSE
      else if currentStatus s = PAUSE \<and> d = PLAY then PLAY
      else if currentStatus s = ERROR \<and> d = PAUSE then PAUSE
      else currentStatus s)"
  by (cases "currentStatus s"; cases d;
      simp add: switchToStatus_cases pausePlayback_fields emit_def startPlayback_def)


text \<open>
  C3. A request for ERROR in a state that is not ERROR calls \<open>pausePlayback\<close> and then
  sets the state to ERROR: the trace gains the warning, one idle command and the "paused
  at" line, and the wall time since the recorded segment start is added to the base sim
  time. A request for ERROR in state ERROR changes nothing and publishes nothing.
\<close>

theorem switchToStatus_ERROR_pauses_once:
  "(currentStatus s \<noteq> ERROR \<longrightarrow>
      switchToStatus ext now ERROR s =
        (pausePlayback ext now (emit (RosWarn ''Switching to emergency mode.'') s))
        \<lparr>currentStatus := ERROR\<rparr> \<and>
      switchToStatus ext now ERROR s =
        s\<lparr>events := events s @
              [RosWarn ''Switching to emergency mode.'',
               PublishCommand (idleTwistCommand ext),
               RosInfoPausedAt (baseSimTime s + (now - timePlaybackStarted s))],
          baseSimTime := baseSimTime s + (now - timePlaybackStarted s),
          currentStatus := ERROR\<rparr>) \<and>
   (currentStatus s = ERROR \<longrightarrow> switchToStatus ext now ERROR s = s)"
  by (simp add: switchToStatus_cases pausePlayback_fields emit_def)

text \<open>
  The theorem at the example: playback started at wall time 1 fails at wall time 11, which
  publishes one idle command and adds 10 to the sim time; a second failure at 15 changes
  nothing.
\<close>

theorem switchToStatus_ERROR_pauses_once_witness:
  "currentStatus examplePlaying \<noteq> ERROR \<and>
   exampleFailed =
     examplePlaying\<lparr>events := events examplePlaying @
                        [RosWarn ''Switching to emergency mode.'',
                         PublishCommand ''idle'', RosInfoPausedAt 10],
                    baseSimTime := 10, currentStatus := ERROR\<rparr> \<and>
   currentStatus exampleFailed = ERROR \<and>
   switchToStatus exampleExternals 15 ERROR exampleFailed = exampleFailed"
proof -
  have p: "currentStatus examplePlaying \<noteq> ERROR" "baseSimTime examplePlaying = 0"
    "timePlaybackStarted examplePlaying = 1"
    by (simp_all add: examplePlaying_def exampleRepeat_def initRepeat_def
        switchToStatus_cases startPlayback_def emit_def)
  have i: "idleTwistCommand exampleExternals = ''idle''"
    by (simp add: exampleExternals_def)
  from switchToStatus_ERROR_pauses_once [of examplePlaying exampleExternals 11] p i
  have f: "exampleFailed =
     examplePlaying\<lparr>events := events examplePlaying @
                        [RosWarn ''Switching to emergency mode.'',
                         PublishCommand ''idle'', RosInfoPausedAt 10],
                    baseSimTime := 10, currentStatus := ERROR\<rparr>"
    by (simp add: exampleFailed_def pausePlayback_fields emit_def)
  have e: "currentStatus exampleFailed = ERROR" by (subst f) simp
  from switchToStatus_ERROR_pauses_once [of exampleFailed exampleExternals 15] e
  have "switchToStatus exampleExternals 15 ERROR exampleFailed = exampleFailed" by blast
  with p f e show ?thesis by blast
qed

text \<open>
  C5. For a requested status other than ERROR (the manual inputs request PLAY or PAUSE):
  from PAUSE a request for PLAY calls \<open>startPlayback\<close> and goes to PLAY; from PLAY a
  request for PAUSE calls \<open>pausePlayback\<close> and goes to PAUSE; from ERROR a request for
  PAUSE goes to PAUSE and only logs a line, with no idle command and no change of the
  clock; every other request returns the state as it was, trace included.
\<close>

theorem switchToStatus_manual_transitions:
  assumes "desired \<noteq> ERROR"
  shows "switchToStatus ext now desired s =
     (if currentStatus s = PAUSE \<and> desired = PLAY
      then (startPlayback now (emit (RosInfo ''Starting playback.'') s))
           \<lparr>currentStatus := PLAY\<rparr>
      else if currentStatus s = PLAY \<and> desired = PAUSE
      then (pausePlayback ext now (emit (RosInfo ''Stopping playback.'') s))
           \<lparr>currentStatus := PAUSE\<rparr>
      else if currentStatus s = ERROR \<and> desired = PAUSE
      then s\<lparr>events := events s @ [RosInfo ''Attempting recovery.''],
             currentStatus := PAUSE\<rparr>
      else s)"
  using assms by (simp add: switchToStatus_cases emit_def)

text \<open>
  The theorem at the example: in ERROR a resume request is ignored, an acknowledge request
  leads to PAUSE with one log line, and from there a resume request leads to PLAY.
\<close>

theorem switchToStatus_manual_transitions_witness:
  "PLAY \<noteq> ERROR \<and> PAUSE \<noteq> ERROR \<and>
   switchToStatus exampleExternals 20 PLAY exampleFailed = exampleFailed \<and>
   switchToStatus exampleExternals 21 PAUSE exampleFailed =
     exampleFailed\<lparr>events := events exampleFailed @ [RosInfo ''Attempting recovery.''],
                   currentStatus := PAUSE\<rparr> \<and>
   currentStatus
     (switchToStatus exampleExternals 22 PLAY
        (switchToStatus exampleExternals 21 PAUSE exampleFailed)) = PLAY"
proof -
  have e: "currentStatus exampleFailed = ERROR"
    by (simp add: exampleFailed_def switchToStatus_status)
  have a: "switchToStatus exampleExternals 20 PLAY exampleFailed = exampleFailed"
    using switchToStatus_manual_transitions [of PLAY exampleExternals 20 exampleFailed] e
    by simp
  have b: "switchToStatus exampleExternals 21 PAUSE exampleFailed =
     exampleFailed\<lparr>events := events exampleFailed @ [RosInfo ''Attempting recovery.''],
                   currentStatus := PAUSE\<rparr>"
    using switchToStatus_manual_transitions [of PAUSE exampleExternals 21 exampleFailed] e
    by simp
  have c: "currentStatus
     (switchToStatus exampleExternals 22 PLAY
        (switchToStatus exampleExternals 21 PAUSE exampleFailed)) = PLAY"
    using switchToStatus_manual_transitions
      [of PLAY exampleExternals 22 "switchToStatus exampleExternals 21 PAUSE exampleFailed"] b
    by simp
  from a b c show ?thesis by simp
qed

text \<open>
  C10. The pause input is read as a level. With the RB index inside the button array: in
  PLAY, the callback requests PAUSE exactly when the message's RB value is 0, whatever the
  earlier messages were, so the state after the message is PAUSE if RB is 0 and PLAY only
  if RB is not 0; in PAUSE, the callback requests PLAY exactly when RB is 1, and the state
  after the message is PLAY exactly then.
\<close>

theorem joystickCallback_level_triggered:
  assumes "RB ext < length (buttons msg)"
  shows "(currentStatus s = PLAY \<longrightarrow>
            joystickCallback ext now msg s =
              Inr (if buttons msg ! RB ext = 0 then switchToStatus ext now PAUSE s else s) \<and>
            (\<exists>s'. joystickCallback ext now msg s = Inr s' \<and>
                  (currentStatus s' = PAUSE \<longleftrightarrow> buttons msg ! RB ext = 0) \<and>
                  (currentStatus s' = PLAY \<longleftrightarrow> buttons msg ! RB ext \<noteq> 0))) \<and>
         (currentStatus s = PAUSE \<longrightarrow>
            joystickCallback ext now msg s =
              Inr (if buttons msg ! RB ext = 1 then switchToStatus ext now PLAY s else s) \<and>
            (\<exists>s'. joystickCallback ext now msg s = Inr s' \<and>
                  (currentStatus s' = PLAY \<longleftrightarrow> buttons msg ! RB ext = 1)))"
  using assms
  by (simp add: joystickCallback_def button_def bindE_def switchToStatus_status)

text \<open>
  The theorem at the example: while playing, a message with RB held changes nothing, a
  message with RB released pauses, and the next message with RB held resumes.
\<close>

theorem joystickCallback_level_triggered_witness:
  "RB exampleExternals < length (buttons exampleReleased) \<and>
   RB exampleExternals < length (buttons exampleHeld) \<and>
   currentStatus examplePlaying = PLAY \<and>
   joystickCallback exampleExternals 5 exampleHeld examplePlaying = Inr examplePlaying \<and>
   joystickCallback exampleExternals 6 exampleReleased examplePlaying =
     Inr (switchToStatus exampleExternals 6 PAUSE examplePlaying) \<and>
   currentStatus (switchToStatus exampleExternals 6 PAUSE examplePlaying) = PAUSE \<and>
   joystickCallback exampleExternals 7 exampleHeld
       (switchToStatus exampleExternals 6 PAUSE examplePlaying) =
     Inr (switchToStatus exampleExternals 7 PLAY
            (switchToStatus exampleExternals 6 PAUSE examplePlaying))"
proof -
  have r: "RB exampleExternals < length (buttons exampleReleased)"
    "buttons exampleReleased ! RB exampleExternals = 0"
    by (simp_all add: exampleExternals_def exampleReleased_def)
  have h: "RB exampleExternals < length (buttons exampleHeld)"
    "buttons exampleHeld ! RB exampleExternals = 1"
    by (simp_all add: exampleExternals_def exampleHeld_def)
  have p: "currentStatus examplePlaying = PLAY"
    by (simp add: examplePlaying_def exampleRepeat_def initRepeat_def switchToStatus_status)
  have q: "currentStatus (switchToStatus exampleExternals 6 PAUSE examplePlaying) = PAUSE"
    using p by (simp add: switchToStatus_status)
  have a: "joystickCallback exampleExternals 5 exampleHeld examplePlaying = Inr examplePlaying"
    using joystickCallback_level_triggered [OF h(1), of examplePlaying 5] p h(2) by simp
  have b: "joystickCallback exampleExternals 6 exampleReleased examplePlaying =
     Inr (switchToStatus exampleExternals 6 PAUSE examplePlaying)"
    using joystickCallback_level_triggered [OF r(1), of examplePlaying 6] p r(2) by simp
  have c: "joystickCallback exampleExternals 7 exampleHeld
       (switchToStatus exampleExternals 6 PAUSE examplePlaying) =
     Inr (switchToStatus exampleExternals 7 PLAY
            (switchToStatus exampleExternals 6 PAUSE examplePlaying))"
    using joystickCallback_level_triggered
      [OF h(1), of "switchToStatus exampleExternals 6 PAUSE examplePlaying" 7] q h(2)
    by simp
  from r(1) h(1) p q a b c show ?thesis by simp
qed

section \<open>The blocks of the loop body\<close>

text \<open>The comparison the code writes is the comparison the claim words the other way round.\<close>

lemma double_ge_le: "double_ge a b = double_le b a"
  by (cases a; cases b) simp_all

text \<open>
  A lookup fails exactly when its cursor points at no element; when it succeeds it changes
  the cursor only, and asking again for the same time changes nothing.
\<close>

lemma commandOfTime_invalid:
  "\<not> commandCursor s < length (commands s) \<Longrightarrow> commandOfTime t s = Inl InvalidIterator"
  by (simp add: commandOfTime_def bindE_def commandOfTime_loop.simps [of t s])

lemma poseOfTime_invalid:
  "\<not> positionCursor s < length (positions s) \<Longrightarrow> poseOfTime t s = Inl InvalidIterator"
  by (simp add: poseOfTime_def bindE_def poseOfTime_loop.simps [of t s])

lemma commandOfTime_Inr:
  assumes "commandOfTime t s = Inr (tw, s')"
  shows "\<exists>c'. s' = s\<lparr>commandCursor := c'\<rparr> \<and> commandCursor s \<le> c' \<and>
              c' < length (commands s) \<and> tw = twist (commands s ! c')"
proof (cases "commandCursor s < length (commands s)")
  case True
  from commandOfTime_char [OF True, of t] assms show ?thesis by auto
next
  case False
  from commandOfTime_invalid [OF False, of t] assms show ?thesis by simp
qed

lemma poseOfTime_Inr:
  assumes "poseOfTime t s = Inr (p, s')"
  shows "\<exists>c'. s' = s\<lparr>positionCursor := c'\<rparr> \<and> positionCursor s \<le> c' \<and>
              c' < length (positions s) \<and> p = pose (positions s ! c')"
proof (cases "positionCursor s < length (positions s)")
  case True
  from poseOfTime_char [OF True, of t] assms show ?thesis by auto
next
  case False
  from poseOfTime_invalid [OF False, of t] assms show ?thesis by simp
qed

lemma poseOfTime_again:
  assumes "poseOfTime t s = Inr (p, s')"
  shows "poseOfTime t s' = Inr (p, s')"
proof -
  have valid: "positionCursor s < length (positions s)"
    using assms poseOfTime_invalid [of s t] by auto
  let ?n = "length (positions s)"
  let ?P = "\<lambda>i. pose_stamp (positions s ! i) < t"
  from poseOfTime_char [OF valid, of t] assms
  obtain c1 where c1: "s' = s\<lparr>positionCursor := c1\<rparr>" "p = pose (positions s ! c1)"
    "positionCursor s \<le> c1" "c1 < ?n" "c1 = ?n - 1 \<or> \<not> ?P c1"
    by auto
  have valid': "positionCursor s' < length (positions s')" using c1 by simp
  from poseOfTime_char [OF valid', of t] c1(1)
  obtain c2 where c2: "poseOfTime t s' = Inr (pose (positions s ! c2), s\<lparr>positionCursor := c2\<rparr>)"
    "c1 \<le> c2" "c2 < ?n" "\<forall>i. c1 \<le> i \<and> i < c2 \<longrightarrow> ?P i" "c2 = ?n - 1 \<or> \<not> ?P c2"
    by auto
  have "c2 = c1"
    using first_stop_unique [of c1 c2 ?n ?P c1] c1 c2 by auto
  with c2(1) c1 show ?thesis by simp
qed

text \<open>Lines 84 to 103, 105 to 111 and 113 of \<^verbatim>\<open>spin\<close>, each as one equation.\<close>

lemma spinAnchorPoint_char:
  assumes pose: "poseOfTime t s = Inr (p, s1)"
    and valid: "anchorPointCursor s < length (anchorPoints s)"
  shows "spinAnchorPoint ext t now s =
           Inr (if Suc (anchorPointCursor s) < length (anchorPoints s) \<and>
                   double_ge
                     (customDistance ext p
                        (getPosition (anchorPoints s ! anchorPointCursor s)))
                     (customDistance ext p
                        (getPosition (anchorPoints s ! Suc (anchorPointCursor s))))
                then emit (PublishAnchorPointSwitch now
                             (name (anchorPoints s ! Suc (anchorPointCursor s))))
                       (s1\<lparr>anchorPointCursor := Suc (anchorPointCursor s)\<rparr>)
                else s1)"
proof -
  from poseOfTime_Inr [OF pose] obtain c' where s1: "s1 = s\<lparr>positionCursor := c'\<rparr>"
    by blast
  have again: "poseOfTime t s1 = Inr (p, s1)" by (rule poseOfTime_again [OF pose])
  have a1: "anchorPoints s1 = anchorPoints s" "anchorPointCursor s1 = anchorPointCursor s"
    using s1 by simp_all
  show ?thesis
  proof (cases "Suc (anchorPointCursor s) < length (anchorPoints s)")
    case True
    then show ?thesis
      using pose again valid a1
      by (simp add: spinAnchorPoint_def bindE_def deref_def Let_def)
  next
    case False
    with valid have "Suc (anchorPointCursor s) = length (anchorPoints s)" by simp
    then show ?thesis
      using pose valid a1 False
      by (simp add: spinAnchorPoint_def bindE_def deref_def Let_def)
  qed
qed


lemma bindE_Inr:
  "bindE m f = Inr y \<Longrightarrow> \<exists>x. m = Inr x \<and> f x = Inr y"
  by (cases m) (simp_all add: bindE_def)

lemma bindE_Inr_eq [simp]: "bindE (Inr x) f = f x"
  by (simp add: bindE_def)

lemma bindE_Inl_eq [simp]: "bindE (Inl e) f = Inl e"
  by (simp add: bindE_def)

lemma spinCommand_char:
  "currentStatus s \<noteq> PLAY \<Longrightarrow> spinCommand ext t s = Inr s"
  "currentStatus s = PLAY \<Longrightarrow> commandOfTime t s = Inr (cmd, s1) \<Longrightarrow>
   spinCommand ext t s =
     Inr (s1\<lparr>controller := snd (correctCommand ext (controller s) cmd),
            events := events s @ [CorrectCommandCall cmd,
                                   PublishCommand (fst (correctCommand ext (controller s) cmd))]\<rparr>)"
proof -
  show "currentStatus s \<noteq> PLAY \<Longrightarrow> spinCommand ext t s = Inr s"
    by (simp add: spinCommand_def)
next
  assume play: "currentStatus s = PLAY" and cmd: "commandOfTime t s = Inr (cmd, s1)"
  from commandOfTime_Inr [OF cmd] obtain c' where "s1 = s\<lparr>commandCursor := c'\<rparr>" by blast
  then show "spinCommand ext t s =
     Inr (s1\<lparr>controller := snd (correctCommand ext (controller s) cmd),
            events := events s @ [CorrectCommandCall cmd,
                                   PublishCommand (fst (correctCommand ext (controller s) cmd))]\<rparr>)"
    using play cmd by (simp add: spinCommand_def emit_def split: prod.split)
qed

lemma spinReferencePose_char:
  "poseOfTime (simTime now s) s = Inr (p, s1) \<Longrightarrow>
   spinReferencePose now s = Inr (emit (PublishReferencePose p) s1)"
  by (simp add: spinReferencePose_def)

text \<open>Only lines 94 to 103 move the anchor cursor.\<close>

lemma spinCommand_anchor:
  assumes "spinCommand ext t s = Inr s'"
  shows "anchorPointCursor s' = anchorPointCursor s \<and> anchorPoints s' = anchorPoints s"
proof (cases "currentStatus s = PLAY")
  case True
  with assms obtain cmd s1 where c: "commandOfTime t s = Inr (cmd, s1)"
    by (auto simp: spinCommand_def dest!: bindE_Inr)
  from commandOfTime_Inr [OF c] obtain c' where "s1 = s\<lparr>commandCursor := c'\<rparr>" by blast
  with spinCommand_char(2) [OF True c, of ext] assms show ?thesis by auto
next
  case False
  with assms show ?thesis by (simp add: spinCommand_def)
qed

lemma spinReferencePose_anchor:
  assumes "spinReferencePose now s = Inr s'"
  shows "anchorPointCursor s' = anchorPointCursor s \<and> anchorPoints s' = anchorPoints s"
proof -
  from assms obtain p s1 where c: "poseOfTime (simTime now s) s = Inr (p, s1)"
    by (auto simp: spinReferencePose_def dest!: bindE_Inr)
  from poseOfTime_Inr [OF c] obtain c' where "s1 = s\<lparr>positionCursor := c'\<rparr>" by blast
  with spinReferencePose_char [OF c] assms show ?thesis by (auto simp: emit_def)
qed

lemma switchToStatus_anchor:
  "anchorPointCursor (switchToStatus ext now d s) = anchorPointCursor s \<and>
   anchorPoints (switchToStatus ext now d s) = anchorPoints s"
  by (simp add: switchToStatus_cases pausePlayback_fields emit_def startPlayback_def)

lemma joystickCallback_anchor:
  assumes "joystickCallback ext now msg s = Inr s'"
  shows "anchorPointCursor s' = anchorPointCursor s \<and> anchorPoints s' = anchorPoints s"
  using assms
  by (cases "currentStatus s")
     (auto simp: joystickCallback_def switchToStatus_anchor dest!: bindE_Inr split: if_splits)

lemma updateError_anchor:
  assumes "updateError ext nowSim nowFail reading s = Inr s'"
  shows "anchorPointCursor s' = anchorPointCursor s \<and> anchorPoints s' = anchorPoints s"
proof -
  from assms obtain p s1 where c: "poseOfTime (simTime nowSim s) s = Inr (p, s1)"
    by (auto simp: updateError_def dest!: bindE_Inr)
  from poseOfTime_Inr [OF c] obtain c' where s1: "s1 = s\<lparr>positionCursor := c'\<rparr>" by blast
  from assms c s1 show ?thesis
    by (auto simp: updateError_def Let_def emit_def switchToStatus_anchor
        dest!: bindE_Inr split: if_splits option.splits)
qed

lemma spinOnce_anchor:
  "spinOnce ext cbs s = Inr s' \<Longrightarrow>
   anchorPointCursor s' = anchorPointCursor s \<and> anchorPoints s' = anchorPoints s"
proof (induction ext cbs s rule: spinOnce.induct)
  case (1 ext s)
  then show ?case by simp
next
  case (2 ext now msg cbs s)
  from "2.prems" obtain s1 where s1: "joystickCallback ext now msg s = Inr s1"
    "spinOnce ext cbs s1 = Inr s'"
    by (auto dest!: bindE_Inr)
  from "2.IH" [OF s1(2)] joystickCallback_anchor [OF s1(1)] show ?case by simp
next
  case (3 ext nowSim nowFail reading cbs s)
  from "3.prems" obtain s1 where s1: "updateError ext nowSim nowFail reading s = Inr s1"
    "spinOnce ext cbs s1 = Inr s'"
    by (auto dest!: bindE_Inr)
  from "3.IH" [OF s1(2)] updateError_anchor [OF s1(1)] show ?case by simp
next
  case (4 ext newLookahead updateParams cbs s)
  from "4.IH" [OF "4.prems" [simplified]] show ?case by (simp add: paramCallback_def)
qed

text \<open>The playing example, field by field.\<close>

lemma examplePlaying_eq:
  "examplePlaying =
     exampleRepeat\<lparr>events := [RosInfo ''Starting playback.''],
                   timePlaybackStarted := 1, currentStatus := PLAY\<rparr>"
  by (simp add: examplePlaying_def exampleRepeat_def initRepeat_def switchToStatus_cases
      startPlayback_def emit_def)

text \<open>
  C4. In a cycle whose pose lookup succeeds with pose \<open>p\<close> and whose anchor cursor
  points at an anchor, lines 84 to 103 move the anchor cursor by one exactly when a next
  anchor exists and the distance from \<open>p\<close> to the next anchor's position is less than
  or equal to the distance from \<open>p\<close> to the current anchor's position (ties advance),
  and leave it where it was otherwise; the cursor stays on an anchor; exactly on an
  advance one anchor switch message is published, with the clock read on line 100 and the
  name of the new anchor; and nothing else in the cycle, callbacks included, moves the
  anchor cursor.
\<close>

theorem anchor_cursor_advances_when_next_not_farther:
  assumes "poseOfTime (simTime (nowSpin cy) s) s = Inr (p, s1)"
    and "anchorPointCursor s < length (anchorPoints s)"
  shows "\<exists>s2. spinAnchorPoint ext (simTime (nowSpin cy) s) (nowSwitch cy) s = Inr s2 \<and>
           anchorPointCursor s2 =
             (if Suc (anchorPointCursor s) < length (anchorPoints s) \<and>
                 double_le
                   (customDistance ext p
                      (getPosition (anchorPoints s ! Suc (anchorPointCursor s))))
                   (customDistance ext p
                      (getPosition (anchorPoints s ! anchorPointCursor s)))
              then Suc (anchorPointCursor s) else anchorPointCursor s) \<and>
           events s2 = events s @
             (if anchorPointCursor s2 = Suc (anchorPointCursor s)
              then [PublishAnchorPointSwitch (nowSwitch cy)
                      (name (anchorPoints s ! anchorPointCursor s2))]
              else []) \<and>
           anchorPointCursor s2 < length (anchorPoints s) \<and>
           (\<forall>s'. bindE (spinBody ext cy s) (spinOnce ext (pending cy)) = Inr s' \<longrightarrow>
                 anchorPointCursor s' = anchorPointCursor s2)"
proof -
  let ?t = "simTime (nowSpin cy) s"
  let ?adv = "Suc (anchorPointCursor s) < length (anchorPoints s) \<and>
              double_ge
                (customDistance ext p (getPosition (anchorPoints s ! anchorPointCursor s)))
                (customDistance ext p
                   (getPosition (anchorPoints s ! Suc (anchorPointCursor s))))"
  let ?s2 = "if ?adv
             then emit (PublishAnchorPointSwitch (nowSwitch cy)
                          (name (anchorPoints s ! Suc (anchorPointCursor s))))
                    (s1\<lparr>anchorPointCursor := Suc (anchorPointCursor s)\<rparr>)
             else s1"
  from poseOfTime_Inr [OF assms(1)] obtain c' where s1: "s1 = s\<lparr>positionCursor := c'\<rparr>"
    by blast
  have block: "spinAnchorPoint ext ?t (nowSwitch cy) s = Inr ?s2"
    by (rule spinAnchorPoint_char [OF assms])
  have cur: "anchorPointCursor ?s2 =
             (if ?adv then Suc (anchorPointCursor s) else anchorPointCursor s)"
    using s1 by (simp add: emit_def)
  have ev: "events ?s2 = events s @
             (if anchorPointCursor ?s2 = Suc (anchorPointCursor s)
              then [PublishAnchorPointSwitch (nowSwitch cy)
                      (name (anchorPoints s ! anchorPointCursor ?s2))]
              else [])"
    using s1 by (simp add: emit_def)
  have bound: "anchorPointCursor ?s2 < length (anchorPoints s)"
    using s1 assms(2) by (simp add: emit_def)
  have rest: "anchorPointCursor s' = anchorPointCursor ?s2"
    if run: "bindE (spinBody ext cy s) (spinOnce ext (pending cy)) = Inr s'" for s'
  proof -
    from run obtain s4 where s4: "spinBody ext cy s = Inr s4"
      "spinOnce ext (pending cy) s4 = Inr s'"
      by (auto dest!: bindE_Inr)
    from s4(1) block obtain s3 where s3: "spinCommand ext ?t ?s2 = Inr s3"
      "spinReferencePose (nowReference cy) s3 = Inr s4"
      by (auto simp: spinBody_def Let_def dest!: bindE_Inr)
    from spinCommand_anchor [OF s3(1)] spinReferencePose_anchor [OF s3(2)]
      spinOnce_anchor [OF s4(2)]
    show ?thesis by simp
  qed
  from block cur ev bound rest show ?thesis
    unfolding double_ge_le by blast
qed

text \<open>
  The theorem at the playing example: at sim time 11 the reference pose is 20, at
  distance 20 from the first anchor and 0 from the second, so the cursor moves to the
  second anchor and its name is published with time 13.
\<close>

theorem anchor_cursor_advances_when_next_not_farther_witness:
  "poseOfTime (simTime (nowSpin exampleCycle) examplePlaying) examplePlaying =
     Inr (20, examplePlaying\<lparr>positionCursor := 2\<rparr>) \<and>
   anchorPointCursor examplePlaying < length (anchorPoints examplePlaying) \<and>
   (\<exists>s2. spinAnchorPoint exampleExternals (simTime (nowSpin exampleCycle) examplePlaying)
           (nowSwitch exampleCycle) examplePlaying = Inr s2 \<and>
         anchorPointCursor s2 = 1 \<and>
         events s2 = events examplePlaying @ [PublishAnchorPointSwitch 13 ''ap1''])"
proof -
  have h1: "poseOfTime (simTime (nowSpin exampleCycle) examplePlaying) examplePlaying =
     Inr (20, examplePlaying\<lparr>positionCursor := 2\<rparr>)"
    by (simp add: examplePlaying_eq exampleRepeat_def initRepeat_def exampleCycle_def
        simTime_def poseOfTime_def poseOfTime_loop.simps deref_def)
  have h2: "anchorPointCursor examplePlaying < length (anchorPoints examplePlaying)"
    by (simp add: examplePlaying_eq exampleRepeat_def initRepeat_def)
  have v: "anchorPointCursor examplePlaying = 0"
    "anchorPoints examplePlaying =
       [\<lparr>name = ''ap0'', getPosition = 0, getCloud = ''cloud0''\<rparr>,
        \<lparr>name = ''ap1'', getPosition = 20, getCloud = ''cloud1''\<rparr>]"
    "customDistance exampleExternals = (\<lambda>p q. Finite (real_of_int \<bar>p - q\<bar>))"
    "nowSwitch exampleCycle = 13"
    by (simp_all add: examplePlaying_eq exampleRepeat_def initRepeat_def
        exampleExternals_def exampleCycle_def)
  from anchor_cursor_advances_when_next_not_farther [OF h1 h2, of exampleExternals]
  obtain s2 where s2:
    "spinAnchorPoint exampleExternals (simTime (nowSpin exampleCycle) examplePlaying)
       (nowSwitch exampleCycle) examplePlaying = Inr s2"
    "anchorPointCursor s2 =
       (if Suc (anchorPointCursor examplePlaying) < length (anchorPoints examplePlaying) \<and>
           double_le
             (customDistance exampleExternals 20
                (getPosition (anchorPoints examplePlaying !
                   Suc (anchorPointCursor examplePlaying))))
             (customDistance exampleExternals 20
                (getPosition (anchorPoints examplePlaying !
                   anchorPointCursor examplePlaying)))
        then Suc (anchorPointCursor examplePlaying) else anchorPointCursor examplePlaying)"
    "events s2 = events examplePlaying @
       (if anchorPointCursor s2 = Suc (anchorPointCursor examplePlaying)
        then [PublishAnchorPointSwitch (nowSwitch exampleCycle)
                (name (anchorPoints examplePlaying ! anchorPointCursor s2))]
        else [])"
    by blast
  from s2(2) have a: "anchorPointCursor s2 = 1" by (simp add: v)
  from s2(3) a have "events s2 = events examplePlaying @ [PublishAnchorPointSwitch 13 ''ap1'']"
    by (simp add: v)
  with h1 h2 s2(1) a show ?thesis by blast
qed

text \<open>What \<open>switchToStatus\<close> leaves alone.\<close>

lemma switchToStatus_frame:
  "commands (switchToStatus ext now d s) = commands s"
  "positions (switchToStatus ext now d s) = positions s"
  "commandCursor (switchToStatus ext now d s) = commandCursor s"
  "positionCursor (switchToStatus ext now d s) = positionCursor s"
  "controller (switchToStatus ext now d s) = controller s"
  "serviceCallLock (switchToStatus ext now d s) = serviceCallLock s"
  "lookahead (switchToStatus ext now d s) = lookahead s"
  by (simp_all add: switchToStatus_cases pausePlayback_fields emit_def startPlayback_def)

text \<open>The definitions that evaluate the examples.\<close>

lemmas example_defs =
  examplePlaying_eq exampleRepeat_def initRepeat_def exampleExternals_def exampleCycle_def

lemmas eval_defs =
  spinBody_def spinAnchorPoint_def spinCommand_def spinReferencePose_def simTime_def
  poseOfTime_def poseOfTime_loop.simps commandOfTime_def commandOfTime_loop.simps
  deref_def emit_def Let_def

text \<open>
  C8. The body of one cycle (lines 82 to 113, before the callbacks are processed), from a
  state whose pose and anchor cursors point at elements, and whose command cursor does so
  in PLAY. The anchor block runs in every state. In PLAY the command at the time of the
  spin is looked up, handed to the corrector, and the corrector's result is published; in
  PAUSE and ERROR the command block changes nothing: no corrector call, no command
  published, the corrector's state as it was. In every state the body ends by publishing
  the reference pose looked up at the sim time read on line 113, and the state of the
  state machine is the one the cycle started in.
\<close>

theorem spinBody_publishes_command_only_in_PLAY:
  assumes pos: "positionCursor s < length (positions s)"
    and anc: "anchorPointCursor s < length (anchorPoints s)"
    and cmd: "currentStatus s = PLAY \<longrightarrow> commandCursor s < length (commands s)"
  shows "\<exists>s2 s3 s' p sp.
           spinAnchorPoint ext (simTime (nowSpin cy) s) (nowSwitch cy) s = Inr s2 \<and>
           spinCommand ext (simTime (nowSpin cy) s) s2 = Inr s3 \<and>
           spinBody ext cy s = Inr s' \<and>
           (currentStatus s = PLAY \<longrightarrow>
              (\<exists>c sc. commandOfTime (simTime (nowSpin cy) s) s2 = Inr (c, sc) \<and>
                      events s3 = events s2 @
                        [CorrectCommandCall c,
                         PublishCommand (fst (correctCommand ext (controller s) c))] \<and>
                      controller s3 = snd (correctCommand ext (controller s) c))) \<and>
           (currentStatus s \<noteq> PLAY \<longrightarrow> s3 = s2 \<and> controller s3 = controller s) \<and>
           poseOfTime (simTime (nowReference cy) s) s3 = Inr (p, sp) \<and>
           s' = emit (PublishReferencePose p) sp \<and>
           events s' = events s3 @ [PublishReferencePose p] \<and>
           controller s' = controller s3 \<and>
           commandCursor s' = commandCursor s3 \<and>
           anchorPointCursor s' = anchorPointCursor s2 \<and>
           currentStatus s' = currentStatus s"
proof -
  let ?t = "simTime (nowSpin cy) s"
  from poseOfTime_char [OF pos, of ?t]
  obtain c1 where p1: "poseOfTime ?t s = Inr (pose (positions s ! c1), s\<lparr>positionCursor := c1\<rparr>)"
    and c1: "c1 < length (positions s)"
    by blast
  let ?p1 = "pose (positions s ! c1)"
  let ?s1 = "s\<lparr>positionCursor := c1\<rparr>"
  let ?adv = "Suc (anchorPointCursor s) < length (anchorPoints s) \<and>
              double_ge
                (customDistance ext ?p1 (getPosition (anchorPoints s ! anchorPointCursor s)))
                (customDistance ext ?p1
                   (getPosition (anchorPoints s ! Suc (anchorPointCursor s))))"
  define s2 where "s2 = (if ?adv
             then emit (PublishAnchorPointSwitch (nowSwitch cy)
                          (name (anchorPoints s ! Suc (anchorPointCursor s))))
                    (?s1\<lparr>anchorPointCursor := Suc (anchorPointCursor s)\<rparr>)
             else ?s1)"
  have block1: "spinAnchorPoint ext ?t (nowSwitch cy) s = Inr s2"
    unfolding s2_def by (rule spinAnchorPoint_char [OF p1 anc])
  have f2: "commands s2 = commands s" "commandCursor s2 = commandCursor s"
    "positions s2 = positions s" "positionCursor s2 = c1"
    "currentStatus s2 = currentStatus s" "controller s2 = controller s"
    "baseSimTime s2 = baseSimTime s" "timePlaybackStarted s2 = timePlaybackStarted s"
    by (simp_all add: s2_def emit_def)
  have "\<exists>s3. spinCommand ext ?t s2 = Inr s3 \<and>
          (currentStatus s = PLAY \<longrightarrow>
              (\<exists>c sc. commandOfTime ?t s2 = Inr (c, sc) \<and>
                      events s3 = events s2 @
                        [CorrectCommandCall c,
                         PublishCommand (fst (correctCommand ext (controller s) c))] \<and>
                      controller s3 = snd (correctCommand ext (controller s) c))) \<and>
          (currentStatus s \<noteq> PLAY \<longrightarrow> s3 = s2 \<and> controller s3 = controller s) \<and>
          positions s3 = positions s \<and> positionCursor s3 = c1 \<and>
          currentStatus s3 = currentStatus s \<and> baseSimTime s3 = baseSimTime s \<and>
          timePlaybackStarted s3 = timePlaybackStarted s \<and>
          anchorPointCursor s3 = anchorPointCursor s2"
  proof (cases "currentStatus s = PLAY")
    case True
    with cmd f2 have v: "commandCursor s2 < length (commands s2)" by simp
    from commandOfTime_char [OF v, of ?t]
    obtain c' where c': "commandOfTime ?t s2 =
        Inr (twist (commands s2 ! c'), s2\<lparr>commandCursor := c'\<rparr>)"
      by blast
    from True f2 have play2: "currentStatus s2 = PLAY" by simp
    from spinCommand_char(2) [OF play2 c', of ext] c' True f2
    show ?thesis by simp
  next
    case False
    with f2 have "currentStatus s2 \<noteq> PLAY" by simp
    from spinCommand_char(1) [OF this, of ext ?t] False f2
    show ?thesis by simp
  qed
  then obtain s3 where block2: "spinCommand ext ?t s2 = Inr s3"
    and play: "currentStatus s = PLAY \<longrightarrow>
              (\<exists>c sc. commandOfTime ?t s2 = Inr (c, sc) \<and>
                      events s3 = events s2 @
                        [CorrectCommandCall c,
                         PublishCommand (fst (correctCommand ext (controller s) c))] \<and>
                      controller s3 = snd (correctCommand ext (controller s) c))"
    and noplay: "currentStatus s \<noteq> PLAY \<longrightarrow> s3 = s2 \<and> controller s3 = controller s"
    and f3: "positions s3 = positions s" "positionCursor s3 = c1"
      "currentStatus s3 = currentStatus s" "baseSimTime s3 = baseSimTime s"
      "timePlaybackStarted s3 = timePlaybackStarted s"
      "anchorPointCursor s3 = anchorPointCursor s2"
    by blast
  have t3: "simTime (nowReference cy) s3 = simTime (nowReference cy) s"
    using f3 by (simp add: simTime_def)
  have v3: "positionCursor s3 < length (positions s3)" using f3 c1 by simp
  from poseOfTime_char [OF v3, of "simTime (nowReference cy) s"]
  obtain c3 where p3: "poseOfTime (simTime (nowReference cy) s) s3 =
      Inr (pose (positions s3 ! c3), s3\<lparr>positionCursor := c3\<rparr>)"
    by blast
  let ?p = "pose (positions s3 ! c3)"
  let ?sp = "s3\<lparr>positionCursor := c3\<rparr>"
  have block3: "spinReferencePose (nowReference cy) s3 = Inr (emit (PublishReferencePose ?p) ?sp)"
    using spinReferencePose_char [of "nowReference cy" s3 ?p ?sp] p3 t3 by simp
  have body: "spinBody ext cy s = Inr (emit (PublishReferencePose ?p) ?sp)"
    using block1 block2 block3 by (simp add: spinBody_def Let_def)
  have last: "events (emit (PublishReferencePose ?p) ?sp) = events s3 @ [PublishReferencePose ?p]"
    "controller (emit (PublishReferencePose ?p) ?sp) = controller s3"
    "commandCursor (emit (PublishReferencePose ?p) ?sp) = commandCursor s3"
    "anchorPointCursor (emit (PublishReferencePose ?p) ?sp) = anchorPointCursor s2"
    "currentStatus (emit (PublishReferencePose ?p) ?sp) = currentStatus s"
    using f3 by (simp_all add: emit_def)
  from block1 block2 body play noplay p3 last show ?thesis by blast
qed

text \<open>
  The theorem at the examples, one cycle each: playing, the body publishes the anchor
  switch, the corrected command and the reference pose; paused, it publishes the reference
  pose only.
\<close>

theorem spinBody_publishes_command_only_in_PLAY_witness:
  "positionCursor examplePlaying < length (positions examplePlaying) \<and>
   anchorPointCursor examplePlaying < length (anchorPoints examplePlaying) \<and>
   currentStatus examplePlaying = PLAY \<and>
   commandCursor examplePlaying < length (commands examplePlaying) \<and>
   (\<exists>s'. spinBody exampleExternals exampleCycle examplePlaying = Inr s' \<and>
         events s' = [RosInfo ''Starting playback.'', PublishAnchorPointSwitch 13 ''ap1'',
                      CorrectCommandCall ''c'', PublishCommand ''c+'',
                      PublishReferencePose 20]) \<and>
   (\<exists>s2 s3 s' p sp.
           spinAnchorPoint exampleExternals (simTime (nowSpin exampleCycle) examplePlaying) (nowSwitch exampleCycle) examplePlaying = Inr s2 \<and>
           spinCommand exampleExternals (simTime (nowSpin exampleCycle) examplePlaying) s2 = Inr s3 \<and>
           spinBody exampleExternals exampleCycle examplePlaying = Inr s' \<and>
           (currentStatus examplePlaying = PLAY \<longrightarrow>
              (\<exists>c sc. commandOfTime (simTime (nowSpin exampleCycle) examplePlaying) s2 = Inr (c, sc) \<and>
                      events s3 = events s2 @
                        [CorrectCommandCall c,
                         PublishCommand (fst (correctCommand exampleExternals (controller examplePlaying) c))] \<and>
                      controller s3 = snd (correctCommand exampleExternals (controller examplePlaying) c))) \<and>
           (currentStatus examplePlaying \<noteq> PLAY \<longrightarrow> s3 = s2 \<and> controller s3 = controller examplePlaying) \<and>
           poseOfTime (simTime (nowReference exampleCycle) examplePlaying) s3 = Inr (p, sp) \<and>
           s' = emit (PublishReferencePose p) sp \<and>
           events s' = events s3 @ [PublishReferencePose p] \<and>
           controller s' = controller s3 \<and>
           commandCursor s' = commandCursor s3 \<and>
           anchorPointCursor s' = anchorPointCursor s2 \<and>
           currentStatus s' = currentStatus examplePlaying) \<and>
   positionCursor exampleRepeat < length (positions exampleRepeat) \<and>
   anchorPointCursor exampleRepeat < length (anchorPoints exampleRepeat) \<and>
   currentStatus exampleRepeat = PAUSE \<and>
   (\<exists>s'. spinBody exampleExternals exampleCycle exampleRepeat = Inr s' \<and>
         events s' = [PublishReferencePose 0]) \<and>
   (\<exists>s2 s3 s' p sp.
           spinAnchorPoint exampleExternals (simTime (nowSpin exampleCycle) exampleRepeat) (nowSwitch exampleCycle) exampleRepeat = Inr s2 \<and>
           spinCommand exampleExternals (simTime (nowSpin exampleCycle) exampleRepeat) s2 = Inr s3 \<and>
           spinBody exampleExternals exampleCycle exampleRepeat = Inr s' \<and>
           (currentStatus exampleRepeat = PLAY \<longrightarrow>
              (\<exists>c sc. commandOfTime (simTime (nowSpin exampleCycle) exampleRepeat) s2 = Inr (c, sc) \<and>
                      events s3 = events s2 @
                        [CorrectCommandCall c,
                         PublishCommand (fst (correctCommand exampleExternals (controller exampleRepeat) c))] \<and>
                      controller s3 = snd (correctCommand exampleExternals (controller exampleRepeat) c))) \<and>
           (currentStatus exampleRepeat \<noteq> PLAY \<longrightarrow> s3 = s2 \<and> controller s3 = controller exampleRepeat) \<and>
           poseOfTime (simTime (nowReference exampleCycle) exampleRepeat) s3 = Inr (p, sp) \<and>
           s' = emit (PublishReferencePose p) sp \<and>
           events s' = events s3 @ [PublishReferencePose p] \<and>
           controller s' = controller s3 \<and>
           commandCursor s' = commandCursor s3 \<and>
           anchorPointCursor s' = anchorPointCursor s2 \<and>
           currentStatus s' = currentStatus exampleRepeat)"
proof -
  have h: "positionCursor examplePlaying < length (positions examplePlaying)"
    "anchorPointCursor examplePlaying < length (anchorPoints examplePlaying)"
    "currentStatus examplePlaying = PLAY"
    "commandCursor examplePlaying < length (commands examplePlaying)"
    by (simp_all add: example_defs)
  have g: "positionCursor exampleRepeat < length (positions exampleRepeat)"
    "anchorPointCursor exampleRepeat < length (anchorPoints exampleRepeat)"
    "currentStatus exampleRepeat = PAUSE"
    by (simp_all add: example_defs)
  have h3: "currentStatus examplePlaying = PLAY \<longrightarrow>
            commandCursor examplePlaying < length (commands examplePlaying)"
    using h(3) h(4) by simp
  have g3: "currentStatus exampleRepeat = PLAY \<longrightarrow>
            commandCursor exampleRepeat < length (commands exampleRepeat)"
    by (simp add: g(3))
  have ev1: "\<exists>s'. spinBody exampleExternals exampleCycle examplePlaying = Inr s' \<and>
         events s' = [RosInfo ''Starting playback.'', PublishAnchorPointSwitch 13 ''ap1'',
                      CorrectCommandCall ''c'', PublishCommand ''c+'',
                      PublishReferencePose 20]"
    by (simp add: example_defs eval_defs)
  have ev2: "\<exists>s'. spinBody exampleExternals exampleCycle exampleRepeat = Inr s' \<and>
         events s' = [PublishReferencePose 0]"
    by (simp add: example_defs eval_defs)
  note P = spinBody_publishes_command_only_in_PLAY [OF h(1) h(2) h3, of exampleExternals exampleCycle]
  note R = spinBody_publishes_command_only_in_PLAY [OF g(1) g(2) g3, of exampleExternals exampleCycle]
  from h ev1 P g ev2 R show ?thesis by (intro conjI)
qed

text \<open>
  C6. A scan processed by \<open>updateError\<close> in a state whose pose lookup succeeds with pose
  \<open>p\<close> and whose anchor cursor points at an anchor; \<open>readings\<close> is the scan transformed
  with \<open>p\<close> and the anchor's position, \<open>reference\<close> the anchor's cloud. When the lock is
  held, the scan is dropped: one line is logged, the service is not called, and the state
  machine, the clock, the corrector, the lock and the command and anchor cursors are as
  they were (the pose lookup of line 130 may have moved the pose cursor). When the lock is
  free, the service is called with \<open>readings\<close> and \<open>reference\<close>; on success the control
  error of the returned transform goes to the corrector's error update and to the error
  topic, and the state machine is not touched; on failure the state machine is switched to
  ERROR; in both cases the lock is free again in the state returned.
\<close>

theorem updateError_guarded_registration:
  assumes pose: "poseOfTime (simTime nowSim s) s = Inr (p, s1)"
    and anc: "anchorPointCursor s < length (anchorPoints s)"
    and rd: "readings = transformReading ext p
                          (getPosition (anchorPoints s ! anchorPointCursor s)) reading"
    and rf: "reference = getCloud (anchorPoints s ! anchorPointCursor s)"
  shows "(serviceCallLock s \<longrightarrow>
            updateError ext nowSim nowFail reading s =
              Inr (emit (RosInfo ''ICP service was busy, dropped a cloud.'') s1) \<and>
            events s1 = events s \<and> currentStatus s1 = currentStatus s \<and>
            controller s1 = controller s \<and> serviceCallLock s1 \<and>
            baseSimTime s1 = baseSimTime s \<and>
            timePlaybackStarted s1 = timePlaybackStarted s \<and>
            commandCursor s1 = commandCursor s \<and>
            anchorPointCursor s1 = anchorPointCursor s) \<and>
         (\<not> serviceCallLock s \<longrightarrow>
            (\<forall>transform. matchClouds ext readings reference = Some transform \<longrightarrow>
               updateError ext nowSim nowFail reading s =
                 Inr (s1\<lparr>events := events s @
                           [MatchCloudsCall readings reference,
                            UpdateErrorCall (controlErrorOfTransformation ext transform),
                            PublishError (controlErrorOfTransformation ext transform)],
                         controller := controllerUpdateError ext (controller s)
                                         (controlErrorOfTransformation ext transform),
                         serviceCallLock := False\<rparr>) \<and>
               currentStatus s1 = currentStatus s) \<and>
            (matchClouds ext readings reference = None \<longrightarrow>
               (\<exists>s'. updateError ext nowSim nowFail reading s = Inr s' \<and>
                  s' = switchToStatus ext nowFail ERROR
                         (s1\<lparr>events := events s @
                                [MatchCloudsCall readings reference,
                                 RosWarn ''There was a problem with the point matching service.''],
                             serviceCallLock := False\<rparr>) \<and>
                  currentStatus s' = ERROR \<and> \<not> serviceCallLock s')))"
proof -
  from poseOfTime_Inr [OF pose] obtain c' where s1: "s1 = s\<lparr>positionCursor := c'\<rparr>"
    by blast
  have f: "anchorPoints s1 = anchorPoints s" "anchorPointCursor s1 = anchorPointCursor s"
    "serviceCallLock s1 = serviceCallLock s" "events s1 = events s"
    "controller s1 = controller s"
    using s1 by simp_all
  have busy: "updateError ext nowSim nowFail reading s =
              Inr (emit (RosInfo ''ICP service was busy, dropped a cloud.'') s1)"
    if "serviceCallLock s"
    using that pose anc f by (simp add: updateError_def deref_def Let_def)
  have ok: "updateError ext nowSim nowFail reading s =
                 Inr (s1\<lparr>events := events s @
                           [MatchCloudsCall readings reference,
                            UpdateErrorCall (controlErrorOfTransformation ext transform),
                            PublishError (controlErrorOfTransformation ext transform)],
                         controller := controllerUpdateError ext (controller s)
                                         (controlErrorOfTransformation ext transform),
                         serviceCallLock := False\<rparr>)"
    if "\<not> serviceCallLock s" "matchClouds ext readings reference = Some transform"
    for transform
    using that pose anc f rd rf
    by (simp add: updateError_def deref_def Let_def emit_def)
  have fail: "updateError ext nowSim nowFail reading s =
                Inr (switchToStatus ext nowFail ERROR
                         (s1\<lparr>events := events s @
                                [MatchCloudsCall readings reference,
                                 RosWarn ''There was a problem with the point matching service.''],
                             serviceCallLock := False\<rparr>))"
    if "\<not> serviceCallLock s" "matchClouds ext readings reference = None"
    using that pose anc f rd rf
    by (simp add: updateError_def deref_def Let_def emit_def switchToStatus_cases
        pausePlayback_fields)
  show ?thesis
    using busy ok fail s1
    by (auto simp: switchToStatus_status switchToStatus_frame)
qed

text \<open>
  The theorem at the playing example, at sim time 2 with reference pose 10: a scan the
  service matches updates the corrector and is reported; a scan the service rejects leads
  to ERROR with the lock free; with the lock held the scan is dropped with one log line.
\<close>

theorem updateError_guarded_registration_witness:
  "poseOfTime (simTime 3 examplePlaying) examplePlaying =
     Inr (10, examplePlaying\<lparr>positionCursor := 1\<rparr>) \<and>
   anchorPointCursor examplePlaying < length (anchorPoints examplePlaying) \<and>
   \<not> serviceCallLock examplePlaying \<and>
   updateError exampleExternals 3 4 ''cloud0'' examplePlaying =
     Inr (examplePlaying\<lparr>positionCursor := 1,
            events := [RosInfo ''Starting playback.'', MatchCloudsCall ''cloud0'' ''cloud0'',
                       UpdateErrorCall ''id'', PublishError ''id''],
            controller := 2, serviceCallLock := False\<rparr>) \<and>
   (\<exists>s'. updateError exampleExternals 3 4 ''other'' examplePlaying = Inr s' \<and>
         currentStatus s' = ERROR \<and> \<not> serviceCallLock s') \<and>
   poseOfTime (simTime 3 (examplePlaying\<lparr>serviceCallLock := True\<rparr>))
       (examplePlaying\<lparr>serviceCallLock := True\<rparr>) =
     Inr (10, examplePlaying\<lparr>serviceCallLock := True, positionCursor := 1\<rparr>) \<and>
   serviceCallLock (examplePlaying\<lparr>serviceCallLock := True\<rparr>) \<and>
   updateError exampleExternals 3 4 ''cloud0'' (examplePlaying\<lparr>serviceCallLock := True\<rparr>) =
     Inr (examplePlaying\<lparr>serviceCallLock := True, positionCursor := 1,
            events := [RosInfo ''Starting playback.'',
                       RosInfo ''ICP service was busy, dropped a cloud.'']\<rparr>)"
proof -
  have h1: "poseOfTime (simTime 3 examplePlaying) examplePlaying =
     Inr (10, examplePlaying\<lparr>positionCursor := 1\<rparr>)"
    by (simp add: example_defs simTime_def poseOfTime_def poseOfTime_loop.simps deref_def)
  have h2: "anchorPointCursor examplePlaying < length (anchorPoints examplePlaying)"
    by (simp add: example_defs)
  have k1: "poseOfTime (simTime 3 (examplePlaying\<lparr>serviceCallLock := True\<rparr>))
       (examplePlaying\<lparr>serviceCallLock := True\<rparr>) =
     Inr (10, examplePlaying\<lparr>serviceCallLock := True, positionCursor := 1\<rparr>)"
    by (simp add: example_defs simTime_def poseOfTime_def poseOfTime_loop.simps deref_def)
  have k2: "anchorPointCursor (examplePlaying\<lparr>serviceCallLock := True\<rparr>) <
            length (anchorPoints (examplePlaying\<lparr>serviceCallLock := True\<rparr>))"
    by (simp add: example_defs)
  have v: "\<not> serviceCallLock examplePlaying" "controller examplePlaying = 0"
    "events examplePlaying = [RosInfo ''Starting playback.'']"
    "anchorPoints examplePlaying ! anchorPointCursor examplePlaying =
       \<lparr>name = ''ap0'', getPosition = 0, getCloud = ''cloud0''\<rparr>"
    by (simp_all add: example_defs)
  have e: "transformReading exampleExternals = (\<lambda>p q r. r)"
    "matchClouds exampleExternals = (\<lambda>a b. if a = b then Some ''id'' else None)"
    "controlErrorOfTransformation exampleExternals = (\<lambda>tf. tf)"
    "controllerUpdateError exampleExternals = (\<lambda>c e. c + length e)"
    by (simp_all add: exampleExternals_def)
  have a: "updateError exampleExternals 3 4 ''cloud0'' examplePlaying =
     Inr (examplePlaying\<lparr>positionCursor := 1,
            events := [RosInfo ''Starting playback.'', MatchCloudsCall ''cloud0'' ''cloud0'',
                       UpdateErrorCall ''id'', PublishError ''id''],
            controller := 2, serviceCallLock := False\<rparr>)"
    using updateError_guarded_registration [where ext = exampleExternals and reading = "''cloud0''" and nowFail = 4,
        OF h1 h2 refl refl] v e by simp
  have b: "\<exists>s'. updateError exampleExternals 3 4 ''other'' examplePlaying = Inr s' \<and>
         currentStatus s' = ERROR \<and> \<not> serviceCallLock s'"
    using updateError_guarded_registration [where ext = exampleExternals and reading = "''other''" and nowFail = 4,
        OF h1 h2 refl refl] v e by simp
  have c: "updateError exampleExternals 3 4 ''cloud0''
             (examplePlaying\<lparr>serviceCallLock := True\<rparr>) =
     Inr (examplePlaying\<lparr>serviceCallLock := True, positionCursor := 1,
            events := [RosInfo ''Starting playback.'',
                       RosInfo ''ICP service was busy, dropped a cloud.'']\<rparr>)"
    using updateError_guarded_registration [where ext = exampleExternals and reading = "''cloud0''" and nowFail = 4,
        OF k1 k2 refl refl] v(3)
    by (simp add: emit_def)
  from h1 h2 v(1) a b k1 c show ?thesis by simp
qed

section \<open>The clock\<close>









section \<open>The loop test\<close>

text \<open>
  At each loop test: when \<^verbatim>\<open>ros::ok()\<close> is false, \<open>spin\<close> returns at once with the
  state unchanged; so it does when commands are loaded and the command cursor is not before
  the last one; when the cursor is before the last command, the body and the callbacks run
  once and the loop goes on from the state they leave; when no command is loaded and
  \<^verbatim>\<open>ros::ok()\<close> is true, the test is undefined. When \<open>spin\<close> returns a state, the
  command cursor is not before the last command, or a test saw \<^verbatim>\<open>ros::ok()\<close> false.
\<close>

lemma spin_loop_test:
  "(\<not> rosOk cy \<longrightarrow> spin ext (cy # cys) s = Some (Inr s)) \<and>
   (rosOk cy \<and> commands s \<noteq> [] \<and>
    \<not> int (commandCursor s) < int (length (commands s)) - 1 \<longrightarrow>
      spin ext (cy # cys) s = Some (Inr s)) \<and>
   (rosOk cy \<and> int (commandCursor s) < int (length (commands s)) - 1 \<longrightarrow>
      spin ext (cy # cys) s =
        (case bindE (spinBody ext cy s) (spinOnce ext (pending cy)) of
           Inl e \<Rightarrow> Some (Inl e)
         | Inr s' \<Rightarrow> spin ext cys s')) \<and>
   (rosOk cy \<and> commands s = [] \<longrightarrow> spin ext (cy # cys) s = Some (Inl InvalidIterator))"
  by auto

lemma spin_returns:
  "spin ext cys s = Some (Inr s') \<Longrightarrow>
   \<not> int (commandCursor s') < int (length (commands s')) - 1 \<or>
   (\<exists>cy \<in> set cys. \<not> rosOk cy)"
proof (induction cys arbitrary: s)
  case Nil
  then show ?case by simp
next
  case (Cons c cs)
  show ?case
  proof (cases "rosOk c \<and> int (commandCursor s) < int (length (commands s)) - 1")
    case True
    then have "commands s \<noteq> []" by auto
    with True Cons.prems obtain s1 where "spin ext cs s1 = Some (Inr s')"
      by (auto split: sum.splits)
    from Cons.IH [OF this] show ?thesis by auto
  next
    case False
    with Cons.prems have "s' = s" by (auto split: if_splits)
    with False Cons.prems show ?thesis by (auto split: if_splits)
  qed
qed

text \<open>
  A run that ends: playing, the first cycle moves the command cursor to the last command
  and the second loop test returns.
\<close>

lemma spin_example_run:
  "\<exists>s'. spin exampleExternals [exampleCycle, exampleCycle] examplePlaying = Some (Inr s') \<and>
        spinBody exampleExternals exampleCycle examplePlaying = Inr s' \<and>
        commandCursor s' = 2 \<and> length (commands s') = 3"
proof -
  have h: "rosOk exampleCycle"
    "int (commandCursor examplePlaying) < int (length (commands examplePlaying)) - 1"
    "pending exampleCycle = []"
    by (simp_all add: example_defs)
  have "\<exists>s'. spinBody exampleExternals exampleCycle examplePlaying = Inr s' \<and>
          commandCursor s' = 2 \<and> length (commands s') = 3"
    by (simp add: example_defs eval_defs)
  then obtain s' where s': "spinBody exampleExternals exampleCycle examplePlaying = Inr s'"
    "commandCursor s' = 2" "length (commands s') = 3"
    by blast
  have run: "bindE (spinBody exampleExternals exampleCycle examplePlaying)
               (spinOnce exampleExternals (pending exampleCycle)) = Inr s'"
    by (simp only: s'(1) h(3) bindE_Inr_eq spinOnce.simps)
  from spin_loop_test [of exampleCycle exampleExternals "[exampleCycle]" examplePlaying] h(1,2)
  have "spin exampleExternals [exampleCycle, exampleCycle] examplePlaying =
        (case bindE (spinBody exampleExternals exampleCycle examplePlaying)
                (spinOnce exampleExternals (pending exampleCycle)) of
           Inl e \<Rightarrow> Some (Inl e)
         | Inr s' \<Rightarrow> spin exampleExternals [exampleCycle] s')"
    by blast
  then have first: "spin exampleExternals [exampleCycle, exampleCycle] examplePlaying =
               spin exampleExternals [exampleCycle] s'"
    by (simp only: run sum.case)
  have "rosOk exampleCycle \<and> commands s' \<noteq> [] \<and>
        \<not> int (commandCursor s') < int (length (commands s')) - 1"
    using s' h(1) by auto
  with spin_loop_test [of exampleCycle exampleExternals "[]" s']
  have second: "spin exampleExternals [exampleCycle] s' = Some (Inr s')" by blast
  from first second have "spin exampleExternals [exampleCycle, exampleCycle] examplePlaying =
      Some (Inr s')"
    by (rule trans)
  with s' show ?thesis by blast
qed

text \<open>
  C9 at the input where the code leaves it: with the trajectory of the example but no
  command loaded, the cursor is \<^verbatim>\<open>begin()\<close>, which is \<^verbatim>\<open>end()\<close>, and the first loop
  test forms \<^verbatim>\<open>commands.end() - 1\<close>, an iterator before \<^verbatim>\<open>begin()\<close>. The code does
  not return from the loop there by any rule of the language; the claim says it does, with
  no cycle run.
\<close>

theorem spin_empty_commands_undefined:
  "rosOk exampleCycle \<and> commands exampleUntaught = [] \<and>
   commandCursor exampleUntaught = 0 \<and>
   spin exampleExternals [exampleCycle] exampleUntaught = Some (Inl InvalidIterator)"
  by (simp add: exampleUntaught_def example_defs)

end
